theory Spec2Isabelle
  imports Complex_Main "HOL-Library.List_Lexorder" "HOL-Library.Char_ord" "HOL-Library.Word"
begin

section \<open>Numeric model\<close>

text \<open>
  The service computes on NumPy arrays of 32-bit floating-point numbers. In this
  development a number is a \<^typ>\<open>real\<close>: \<open>astype("float32")\<close> and \<open>float(...)\<close> are
  the identity, arithmetic is exact, and rounding, infinities and NaN are outside the
  model. A vector is a list of numbers; a two-dimensional array keeps its column count
  beside its rows, as the shape \<open>(N, D)\<close> of an \<open>ndarray\<close> does (also when \<open>N = 0\<close>).
\<close>

type_synonym vec = "real list"

record matrix =
  ncols :: nat
  mrows :: "vec list"

definition wf_matrix :: "matrix \<Rightarrow> bool" where
  "wf_matrix m = list_all (\<lambda>r. length r = ncols m) (mrows m)"

text \<open>The guard \<open>1e-12\<close> that every normalisation of the source adds to the norm.\<close>

definition eps :: real where
  "eps = 1 / 10 ^ 12"

text \<open>\<open>np.linalg.norm\<close> of a vector: the Euclidean norm.\<close>

definition l2norm :: "vec \<Rightarrow> real" where
  "l2norm v = sqrt (sum_list (map (\<lambda>x. x * x) v))"

text \<open>\<open>v / (np.linalg.norm(v) + 1e-12)\<close>.\<close>

definition eps_normalize :: "vec \<Rightarrow> vec" where
  "eps_normalize v = map (\<lambda>x. x / (l2norm v + eps)) v"

text \<open>One entry of \<open>emb @ q\<close>: the dot product of a row with the query.\<close>

definition dot :: "vec \<Rightarrow> vec \<Rightarrow> real" where
  "dot u v = sum_list (map2 (*) u v)"

text \<open>
  \<open>np.argsort(xs)\<close>: the indices that sort \<open>xs\<close> ascending. NumPy's default sort kind
  does not promise an order among equal keys; the model breaks ties by row order
  (a stable sort), which is one of the orders NumPy may produce.
\<close>

definition argsort :: "real list \<Rightarrow> nat list" where
  "argsort xs = sort_key (\<lambda>i. xs ! i) [0..<length xs]"

text \<open>
  The Python slice \<open>xs[:k]\<close> for an integer \<open>k\<close>: the first \<open>k\<close> elements when
  \<open>k \<ge> 0\<close>, all but the last \<open>-k\<close> when \<open>k < 0\<close>.
\<close>

definition py_take :: "int \<Rightarrow> 'a list \<Rightarrow> 'a list" where
  "py_take k xs = (if 0 \<le> k then take (nat k) xs else take (length xs - nat (- k)) xs)"

section \<open>The vector index (services/search.py)\<close>

datatype exn =
  FileNotFoundError
  | ValueError
  | AssertionError
  | IndexError
  | DecodeError
  | OtherError

text \<open>
  One metadata object \<open>{name, image_rel, cluster?}\<close>. \<open>name\<close> and \<open>cluster\<close> are
  \<open>None\<close> when the key is absent (a name that is present is a string); \<open>image_rel\<close> is
  \<open>None\<close> when the key is absent or its value is \<open>null\<close>, which \<open>info.get("image_rel")\<close>
  does not tell apart.
\<close>

record meta_entry =
  name :: "string option"
  image_rel :: "string option"
  cluster :: "nat option"

text \<open>
  A persisted artifact: absent from the data directory, present with content that the
  loader (\<open>np.load\<close>, \<open>json.load\<close>) cannot read, or present with its content.
  \<open>DecodeError\<close> stands for the exception a loader raises on content it cannot read
  (\<open>ValueError\<close>, \<open>EOFError\<close>, a JSON decode error); it is never \<open>FileNotFoundError\<close>.
\<close>

datatype 'a artifact = Absent | Unreadable | Content 'a

record disk =
  emb_file :: "matrix artifact"
  meta_file :: "meta_entry list artifact"

record actor_index =
  loaded :: bool
  emb :: "matrix option"
  meta :: "meta_entry list option"

text \<open>\<open>ActorIndex.__init__\<close>.\<close>

definition init_index :: actor_index where
  "init_index = \<lparr>loaded = False, emb = None, meta = None\<rparr>"

text \<open>\<open>emb / (np.linalg.norm(emb, axis=1, keepdims=True) + 1e-12)\<close>: every row normalised.\<close>

definition normalize_rows :: "matrix \<Rightarrow> matrix" where
  "normalize_rows m = m\<lparr>mrows := map eps_normalize (mrows m)\<rparr>"

text \<open>
  \<open>ActorIndex.ensure_loaded\<close>. The result is the exception raised (or \<open>()\<close>) together
  with the index after the call: the assignments to \<open>_emb\<close> and \<open>_meta\<close> that precede a
  raise stay in effect.
\<close>

definition ensure_loaded :: "actor_index \<Rightarrow> disk \<Rightarrow> (exn + unit) \<times> actor_index" where
  "ensure_loaded s d =
     (if loaded s then (Inr (), s)
      else if emb_file d = Absent \<or> meta_file d = Absent then (Inl FileNotFoundError, s)
      else case emb_file d of
          Absent \<Rightarrow> (Inl FileNotFoundError, s)
        | Unreadable \<Rightarrow> (Inl DecodeError, s)
        | Content m \<Rightarrow>
            let s1 = s\<lparr>emb := Some (normalize_rows m)\<rparr> in
            (case meta_file d of
                Absent \<Rightarrow> (Inl FileNotFoundError, s1)
              | Unreadable \<Rightarrow> (Inl DecodeError, s1)
              | Content ms \<Rightarrow>
                  let s2 = s1\<lparr>meta := Some ms\<rparr> in
                  if length ms \<noteq> length (mrows (normalize_rows m))
                  then (Inl ValueError, s2)
                  else (Inr (), s2\<lparr>loaded := True\<rparr>)))"

text \<open>The similarities \<open>emb @ q\<close> of the normalised query against every row.\<close>

definition sims_of :: "matrix \<Rightarrow> vec \<Rightarrow> real list" where
  "sims_of m q = map (\<lambda>r. dot r (eps_normalize q)) (mrows m)"

text \<open>
  \<open>ActorIndex.topk\<close>. The matrix product raises when the query's length is not the
  column count of the matrix.
\<close>

definition topk :: "actor_index \<Rightarrow> disk \<Rightarrow> vec \<Rightarrow> int \<Rightarrow> (exn + (nat \<times> real) list) \<times> actor_index" where
  "topk s d query_emb k =
     (case ensure_loaded s d of
        (Inl e, s') \<Rightarrow> (Inl e, s')
      | (Inr _, s') \<Rightarrow>
          (case emb s' of
             None \<Rightarrow> (Inl AssertionError, s')
           | Some m \<Rightarrow>
               if length query_emb \<noteq> ncols m then (Inl ValueError, s')
               else
                 let sims = sims_of m query_emb;
                     idx = py_take k (argsort (map uminus sims))
                 in (Inr (map (\<lambda>i. (i, sims ! i)) idx), s')))"

text \<open>\<open>ActorIndex.info\<close>: the assertion, then list indexing (negative indices count from the end).\<close>

definition info :: "actor_index \<Rightarrow> int \<Rightarrow> exn + meta_entry" where
  "info s idx =
     (case meta s of
        None \<Rightarrow> Inl AssertionError
      | Some ms \<Rightarrow>
          let n = int (length ms); j = (if idx < 0 then n + idx else idx)
          in if 0 \<le> j \<and> j < n then Inr (ms ! nat j) else Inl IndexError)"

section \<open>The request handlers (main.py)\<close>

type_synonym bytes = "8 word list"

text \<open>An uploaded file as the handlers read it: declared name and content type, and the payload.\<close>

record upload =
  filename :: "string option"
  content_type :: "string option"
  contents :: bytes

text \<open>\<open>s.startswith(p)\<close>.\<close>

definition startswith :: "string \<Rightarrow> string \<Rightarrow> bool" where
  "startswith s p = (take (length p) s = p)"

text \<open>
  The message of an error response. The source's messages are Korean text; each is
  represented by a constructor, with the exception it interpolates.
\<close>

datatype detail =
  UploadAnImage
  | FileTooLarge
  | ImageProcessingFailed exn
  | SearchFailed exn
  | ExnText exn
  | RequestValidation
  | InternalServerError

datatype http_error = HTTPException nat detail

record match_result =
  mr_name :: string
  mr_score :: real
  mr_image_url :: "string option"

text \<open>The status code of a response: that of the exception, or 200.\<close>

fun status_of :: "http_error + 'a \<Rightarrow> nat" where
  "status_of (Inl (HTTPException code _)) = code"
| "status_of (Inr _) = 200"

text \<open>Decimal text of a natural number, for \<open>f"Actor {idx}"\<close>.\<close>

fun str_nat :: "nat \<Rightarrow> string" where
  "str_nat n = (if n < 10 then [''0123456789'' ! n]
                else str_nat (n div 10) @ [''0123456789'' ! (n mod 10)])"

declare str_nat.simps [simp del]

text \<open>
  One result row: the metadata lookup, the image URL when \<open>image_rel\<close> is present and
  not empty, and the name with its default.
\<close>

definition result_of :: "actor_index \<Rightarrow> nat \<times> real \<Rightarrow> exn + match_result" where
  "result_of s r =
     (case info s (int (fst r)) of
        Inl e \<Rightarrow> Inl e
      | Inr i \<Rightarrow>
          Inr \<lparr>mr_name = (case name i of Some n \<Rightarrow> n | None \<Rightarrow> ''Actor '' @ str_nat (fst r)),
               mr_score = snd r,
               mr_image_url = (case image_rel i of
                                 None \<Rightarrow> None
                               | Some rel \<Rightarrow> if rel = [] then None else Some (''/actors/'' @ rel))\<rparr>)"

text \<open>The loop \<open>for idx, score in top\<close>; it stops at the first exception.\<close>

fun results_of :: "actor_index \<Rightarrow> (nat \<times> real) list \<Rightarrow> exn + match_result list" where
  "results_of s [] = Inr []"
| "results_of s (r # rs) =
     (case result_of s r of
        Inl e \<Rightarrow> Inl e
      | Inr x \<Rightarrow> (case results_of s rs of Inl e \<Rightarrow> Inl e | Inr xs \<Rightarrow> Inr (x # xs)))"

definition not_image :: "upload \<Rightarrow> bool" where
  "not_image f = (case content_type f of None \<Rightarrow> True | Some ct \<Rightarrow> \<not> startswith ct ''image/'')"

definition too_large :: "upload \<Rightarrow> bool" where
  "too_large f = (length (contents f) > 10 * 1024 * 1024)"

text \<open>The bounds \<open>ge=1, le=10\<close> declared on \<open>top_k\<close>; the framework answers 422 outside them.\<close>

definition top_k_valid :: "int \<Rightarrow> bool" where
  "top_k_valid top_k = (1 \<le> top_k \<and> top_k \<le> 10)"

text \<open>
  \<open>POST /match-actors\<close>. The embedding function is a parameter: it returns the vector
  or the exception it raises. An exception raised outside the two \<open>try\<close> blocks is
  answered with status 500 by the framework.
\<close>

definition match_actors ::
  "(bytes \<Rightarrow> exn + vec) \<Rightarrow> actor_index \<Rightarrow> disk \<Rightarrow> upload \<Rightarrow> int
     \<Rightarrow> (http_error + match_result list) \<times> actor_index" where
  "match_actors image_embedding s d file top_k =
     (if \<not> top_k_valid top_k then (Inl (HTTPException 422 RequestValidation), s)
      else if not_image file then (Inl (HTTPException 400 UploadAnImage), s)
      else if too_large file then (Inl (HTTPException 413 FileTooLarge), s)
      else case image_embedding (contents file) of
          Inl e \<Rightarrow> (Inl (HTTPException 400 (ImageProcessingFailed e)), s)
        | Inr query \<Rightarrow>
            (case topk s d query top_k of
               (Inl e, s') \<Rightarrow>
                 if e = FileNotFoundError then (Inl (HTTPException 503 (ExnText e)), s')
                 else (Inl (HTTPException 500 (SearchFailed e)), s')
             | (Inr tops, s') \<Rightarrow>
                 (case results_of s' tops of
                    Inl e \<Rightarrow> (Inl (HTTPException 500 InternalServerError), s')
                  | Inr results \<Rightarrow> (Inr results, s'))))"

text \<open>One entry of the batch response: \<open>{filename, error}\<close> or \<open>{filename, results}\<close>.\<close>

datatype item_error = NotAnImage | TooLarge | ProcessingFailed exn

datatype batch_item =
  ItemError "string option" item_error
  | ItemResults "string option" "match_result list"

fun item_filename :: "batch_item \<Rightarrow> string option" where
  "item_filename (ItemError fn _) = fn"
| "item_filename (ItemResults fn _) = fn"

fun has_error :: "batch_item \<Rightarrow> bool" where
  "has_error (ItemError _ _) = True"
| "has_error (ItemResults _ _) = False"

text \<open>
  The body of the loop \<open>for f in files\<close>: the entry appended for the file, or the
  exception that ends the request. Its \<open>try\<close> block holds the embedding, the query and
  the result rows, and \<open>except FileNotFoundError\<close> comes before \<open>except Exception\<close>.
\<close>

definition batch_try ::
  "(bytes \<Rightarrow> exn + vec) \<Rightarrow> actor_index \<Rightarrow> disk \<Rightarrow> upload \<Rightarrow> int
     \<Rightarrow> (exn + match_result list) \<times> actor_index" where
  "batch_try image_embedding s d f top_k =
     (case image_embedding (contents f) of
        Inl e \<Rightarrow> (Inl e, s)
      | Inr q \<Rightarrow>
          (case topk s d q top_k of
             (Inl e, s') \<Rightarrow> (Inl e, s')
           | (Inr tops, s') \<Rightarrow> (results_of s' tops, s')))"

definition batch_step ::
  "(bytes \<Rightarrow> exn + vec) \<Rightarrow> actor_index \<Rightarrow> disk \<Rightarrow> upload \<Rightarrow> int
     \<Rightarrow> (http_error + batch_item) \<times> actor_index" where
  "batch_step image_embedding s d f top_k =
     (if not_image f then (Inr (ItemError (filename f) NotAnImage), s)
      else if too_large f then (Inr (ItemError (filename f) TooLarge), s)
      else case batch_try image_embedding s d f top_k of
          (Inl e, s') \<Rightarrow>
            if e = FileNotFoundError then (Inl (HTTPException 503 (ExnText e)), s')
            else (Inr (ItemError (filename f) (ProcessingFailed e)), s')
        | (Inr items, s') \<Rightarrow> (Inr (ItemResults (filename f) items), s'))"

fun batch_loop ::
  "(bytes \<Rightarrow> exn + vec) \<Rightarrow> disk \<Rightarrow> int \<Rightarrow> actor_index \<Rightarrow> upload list \<Rightarrow> batch_item list
     \<Rightarrow> (http_error + batch_item list) \<times> actor_index" where
  "batch_loop image_embedding d top_k s [] outputs = (Inr outputs, s)"
| "batch_loop image_embedding d top_k s (f # fs) outputs =
     (case batch_step image_embedding s d f top_k of
        (Inl err, s') \<Rightarrow> (Inl err, s')
      | (Inr item, s') \<Rightarrow> batch_loop image_embedding d top_k s' fs (outputs @ [item]))"

text \<open>\<open>POST /match-actors-batch\<close>.\<close>

definition match_actors_batch ::
  "(bytes \<Rightarrow> exn + vec) \<Rightarrow> actor_index \<Rightarrow> disk \<Rightarrow> upload list \<Rightarrow> int
     \<Rightarrow> (http_error + batch_item list) \<times> actor_index" where
  "match_actors_batch image_embedding s d files top_k =
     (if \<not> top_k_valid top_k then (Inl (HTTPException 422 RequestValidation), s)
      else if files = [] then (Inl (HTTPException 400 UploadAnImage), s)
      else batch_loop image_embedding d top_k s files [])"

section \<open>The index builder (scripts/build_actor_index.py)\<close>

text \<open>
  A path is its text. A name is sorted as Python sorts \<open>str\<close>: the order of
  \<^typ>\<open>string\<close> is lexicographic on character codes, and on UTF-8 text that is the
  order of the code points.
\<close>

type_synonym path = string

type_synonym groups = "(string \<times> path list) list"

text \<open>\<open>p.name\<close> and \<open>p.suffix\<close> of \<open>pathlib\<close>.\<close>

definition path_name :: "path \<Rightarrow> string" where
  "path_name p = rev (takeWhile (\<lambda>c. c \<noteq> CHR ''/'') (rev p))"

definition suffix :: "path \<Rightarrow> string" where
  "suffix p =
     (let n = path_name p;
          e = takeWhile (\<lambda>c. c \<noteq> CHR ''.'') (rev n);
          i = length n - length e - 1
      in if CHR ''.'' \<in> set n \<and> 0 < i \<and> i < length n - 1 then drop i n else [])"

text \<open>
  \<open>s.lower()\<close> on the letters \<open>A\<close> to \<open>Z\<close>. A character of the model is a byte, so
  the lower-casing of letters outside ASCII is not modelled; it reaches \<open>image_rel\<close> only.
\<close>

definition lower_char :: "char \<Rightarrow> char" where
  "lower_char c =
     (case map_of (zip ''ABCDEFGHIJKLMNOPQRSTUVWXYZ'' ''abcdefghijklmnopqrstuvwxyz'') c of
        Some l \<Rightarrow> l
      | None \<Rightarrow> c)"

definition lower :: "string \<Rightarrow> string" where
  "lower s = map lower_char s"

text \<open>\<open>name.replace(' ', '_')\<close>.\<close>

definition replace_spaces :: "string \<Rightarrow> string" where
  "replace_spaces s = map (\<lambda>c. if c = CHR '' '' then CHR ''_'' else c) s"

text \<open>
  What the builder calls outside itself: reading a file (\<open>None\<close> when \<open>open\<close> or
  \<open>read\<close> raises), the embedding function, re-encoding an image into the
  representative-images folder (whether \<open>Image.open(p).save(target)\<close> succeeded),
  the clustering library (\<open>None\<close> when the import or \<open>fit_predict\<close> raises), and the
  two dataset readers \<open>iter_folder\<close> and \<open>iter_csv\<close>. The readers' scans of the file
  system are not modelled: each is the groups it returns for a path, or the exception
  it raises.
\<close>

record build_env =
  read_file :: "path \<Rightarrow> bytes option"
  embed :: "bytes \<Rightarrow> exn + vec"
  save_image :: "path \<Rightarrow> string \<Rightarrow> bool"
  kmeans :: "nat \<Rightarrow> vec list \<Rightarrow> nat list option"
  iter_folder :: "string \<Rightarrow> exn + groups"
  iter_csv :: "string \<Rightarrow> exn + groups"

text \<open>
  The first statements of the \<open>try\<close> block: read the file and embed it. Any
  exception leads to \<open>continue\<close>.
\<close>

definition try_embed :: "build_env \<Rightarrow> path \<Rightarrow> vec option" where
  "try_embed env p =
     (case read_file env p of
        None \<Rightarrow> None
      | Some b \<Rightarrow> (case embed env b of Inl e \<Rightarrow> None | Inr v \<Rightarrow> Some v))"

text \<open>
  The block under \<open>if rep_rel is None\<close>; the folder of representative images is the
  set of paths, relative to it, that exist. \<open>rep_rel\<close> is \<open>target.name\<close>, the last
  component of the target.
\<close>

definition copy_rep ::
  "build_env \<Rightarrow> string \<Rightarrow> path \<Rightarrow> string option \<times> string set \<Rightarrow> string option \<times> string set" where
  "copy_rep env nm p st =
     (case fst st of
        Some r \<Rightarrow> st
      | None \<Rightarrow>
          let target = replace_spaces nm @ lower (suffix p);
              dir = (if target \<notin> snd st \<and> save_image env p target
                     then insert target (snd st) else snd st)
          in (if target \<in> dir then Some (path_name target) else None, dir))"

text \<open>The loop \<open>for i, p in enumerate(paths[:20])\<close> over \<open>(embs, rep_rel, folder)\<close>.\<close>

fun sample_loop ::
  "build_env \<Rightarrow> string \<Rightarrow> path list \<Rightarrow> vec list \<times> string option \<times> string set
     \<Rightarrow> vec list \<times> string option \<times> string set" where
  "sample_loop env nm [] st = st"
| "sample_loop env nm (p # ps) (embs, rep) =
     (case try_embed env p of
        None \<Rightarrow> sample_loop env nm ps (embs, rep)
      | Some v \<Rightarrow> sample_loop env nm ps (embs @ [v], copy_rep env nm p rep))"

text \<open>\<open>np.stack(xs, axis=0)\<close>: it raises on an empty list and on vectors of different lengths.\<close>

definition stack :: "vec list \<Rightarrow> exn + matrix" where
  "stack xs =
     (case xs of
        [] \<Rightarrow> Inl ValueError
      | x # _ \<Rightarrow>
          if list_all (\<lambda>y. length y = length x) xs
          then Inr \<lparr>ncols = length x, mrows = xs\<rparr>
          else Inl ValueError)"

text \<open>\<open>np.mean(X, axis=0)\<close>: the mean of every column.\<close>

definition mean_axis0 :: "matrix \<Rightarrow> vec" where
  "mean_axis0 X =
     map (\<lambda>j. sum_list (map (\<lambda>r. r ! j) (mrows X)) / real (length (mrows X))) [0..<ncols X]"

text \<open>The two parallel appends \<open>vectors.append(v); meta.append(m)\<close>.\<close>

definition emit ::
  "vec \<Rightarrow> meta_entry \<Rightarrow> vec list \<times> meta_entry list \<Rightarrow> vec list \<times> meta_entry list" where
  "emit v m out = (fst out @ [v], snd out @ [m])"

text \<open>The single-mean branch (also the fallback of the clustering branch).\<close>

definition emit_mean ::
  "string \<Rightarrow> string option \<Rightarrow> matrix \<Rightarrow> vec list \<times> meta_entry list \<Rightarrow> vec list \<times> meta_entry list" where
  "emit_mean nm rep X out =
     emit (eps_normalize (mean_axis0 X)) \<lparr>name = Some nm, image_rel = rep, cluster = None\<rparr> out"

text \<open>\<open>X[labels == c]\<close>.\<close>

definition members_of :: "matrix \<Rightarrow> nat list \<Rightarrow> nat \<Rightarrow> matrix" where
  "members_of X labels c = X\<lparr>mrows := map fst (filter (\<lambda>rl. snd rl = c) (zip (mrows X) labels))\<rparr>"

text \<open>The loop \<open>for c in range(clusters_per_actor)\<close>, over the clusters still to visit.\<close>

fun cluster_loop ::
  "string \<Rightarrow> string option \<Rightarrow> matrix \<Rightarrow> nat list \<Rightarrow> nat list
     \<Rightarrow> vec list \<times> meta_entry list \<Rightarrow> vec list \<times> meta_entry list" where
  "cluster_loop nm rep X labels [] out = out"
| "cluster_loop nm rep X labels (c # cs) out =
     (let members = members_of X labels c
      in if length (mrows members) * ncols members = 0
         then cluster_loop nm rep X labels cs out
         else cluster_loop nm rep X labels cs
                (emit (eps_normalize (mean_axis0 members))
                      \<lparr>name = Some nm, image_rel = rep, cluster = Some c\<rparr> out))"

text \<open>
  The body of the loop \<open>for name, paths in sorted(groups.items())\<close>. A label array
  whose length is not the number of rows makes the first \<open>X[labels == c]\<close> raise, inside
  the \<open>try\<close>, before anything is appended.
\<close>

definition process_entity ::
  "build_env \<Rightarrow> int \<Rightarrow> string \<times> path list \<Rightarrow> (vec list \<times> meta_entry list) \<times> string set
     \<Rightarrow> (exn + vec list \<times> meta_entry list) \<times> string set" where
  "process_entity env clusters g st =
     (if snd g = [] then (Inr (fst st), snd st)
      else
        (case sample_loop env (fst g) (take 20 (snd g)) ([], None, snd st) of
           (embs, rep, dir) \<Rightarrow>
             if embs = [] then (Inr (fst st), dir)
             else
               (case stack embs of
                  Inl e \<Rightarrow> (Inl e, dir)
                | Inr X \<Rightarrow>
                    if clusters > 1 \<and> int (length embs) \<ge> clusters then
                      (case kmeans env (nat clusters) embs of
                         None \<Rightarrow> (Inr (emit_mean (fst g) rep X (fst st)), dir)
                       | Some labels \<Rightarrow>
                           if length labels \<noteq> length embs
                           then (Inr (emit_mean (fst g) rep X (fst st)), dir)
                           else (Inr (cluster_loop (fst g) rep X labels [0..<nat clusters] (fst st)), dir))
                    else (Inr (emit_mean (fst g) rep X (fst st)), dir))))"

fun entity_loop ::
  "build_env \<Rightarrow> int \<Rightarrow> groups \<Rightarrow> (vec list \<times> meta_entry list) \<times> string set
     \<Rightarrow> (exn + vec list \<times> meta_entry list) \<times> string set" where
  "entity_loop env clusters [] st = (Inr (fst st), snd st)"
| "entity_loop env clusters (g # gs) st =
     (case process_entity env clusters g st of
        (Inl e, dir) \<Rightarrow> (Inl e, dir)
      | (Inr out, dir) \<Rightarrow> entity_loop env clusters gs (out, dir))"

text \<open>
  \<open>compute_actor_vectors\<close>. \<open>groups\<close> is a dictionary: its items have distinct names,
  so sorting the items is sorting by name.
\<close>

definition compute_actor_vectors ::
  "build_env \<Rightarrow> string set \<Rightarrow> groups \<Rightarrow> int \<Rightarrow> (exn + matrix \<times> meta_entry list) \<times> string set" where
  "compute_actor_vectors env dir grps clusters_per_actor =
     (case entity_loop env clusters_per_actor (sort_key fst grps) (([], []), dir) of
        (Inl e, dir') \<Rightarrow> (Inl e, dir')
      | (Inr out, dir') \<Rightarrow>
          (case stack (fst out) of
             Inl e \<Rightarrow> (Inl e, dir')
           | Inr M \<Rightarrow> (Inr (M, snd out), dir')))"

text \<open>The command line after \<open>argparse\<close>.\<close>

record cli_args =
  dataset_dir :: "string option"
  csv :: "string option"
  clusters_per_actor :: int

text \<open>Python's truth value of an optional string: \<open>None\<close> and \<open>""\<close> are false.\<close>

definition truthy :: "string option \<Rightarrow> bool" where
  "truthy x = (case x of None \<Rightarrow> False | Some t \<Rightarrow> t \<noteq> [])"

datatype exit_message = InputModeRequired | NoImagesFound

datatype failure = SystemExit exit_message | Uncaught exn

text \<open>The \<open>if\<close>/\<open>elif\<close>/\<open>else\<close> of \<open>main\<close> that reads the dataset.\<close>

definition read_groups :: "build_env \<Rightarrow> cli_args \<Rightarrow> failure + groups" where
  "read_groups env a =
     (if truthy (dataset_dir a) then
        (case iter_folder env (the (dataset_dir a)) of Inl e \<Rightarrow> Inl (Uncaught e) | Inr g \<Rightarrow> Inr g)
      else if truthy (csv a) then
        (case iter_csv env (the (csv a)) of Inl e \<Rightarrow> Inl (Uncaught e) | Inr g \<Rightarrow> Inr g)
      else Inl (SystemExit InputModeRequired))"

text \<open>
  \<open>main\<close>: the result, the folder of representative images and the data directory
  after the run.
\<close>

definition main :: "build_env \<Rightarrow> cli_args \<Rightarrow> string set \<Rightarrow> disk \<Rightarrow> (failure + unit) \<times> string set \<times> disk" where
  "main env a dir d =
     (case read_groups env a of
        Inl f \<Rightarrow> (Inl f, dir, d)
      | Inr grps \<Rightarrow>
          if grps = [] then (Inl (SystemExit NoImagesFound), dir, d)
          else
            (case compute_actor_vectors env dir grps (max 1 (clusters_per_actor a)) of
               (Inl e, dir') \<Rightarrow> (Inl (Uncaught e), dir', d)
             | (Inr (M, ms), dir') \<Rightarrow>
                 (Inr (), dir', d\<lparr>emb_file := Content M, meta_file := Content ms\<rparr>)))"

text \<open>
  The value of \<open>embs\<close> after the sampling loop (lemma \<open>sample_loop_sampled\<close>): the
  embeddings of the first 20 paths that could be read and embedded.
\<close>

abbreviation sampled :: "build_env \<Rightarrow> path list \<Rightarrow> vec list" where
  "sampled env paths \<equiv> List.map_filter (try_embed env) (take 20 paths)"

text \<open>
  A metadata entry describes a row for an entity: it carries the entity's name, and the
  row is the renormalised column mean of a non-empty selection of the entity's sampled
  embeddings (all of them for the single mean, one cluster's members otherwise).
\<close>

abbreviation describes :: "build_env \<Rightarrow> string \<times> path list \<Rightarrow> vec \<Rightarrow> meta_entry \<Rightarrow> bool" where
  "describes env g v m \<equiv>
     name m = Some (fst g)
     \<and> (\<exists>X. wf_matrix X \<and> mrows X \<noteq> [] \<and> set (mrows X) \<subseteq> set (sampled env (snd g))
            \<and> v = eps_normalize (mean_axis0 X))"

section \<open>Example inputs\<close>

definition example_matrix :: matrix where
  "example_matrix = \<lparr>ncols = 2, mrows = [[0, 1], [1, 0]]\<rparr>"

definition example_meta :: "meta_entry list" where
  "example_meta = [\<lparr>name = Some ''a'', image_rel = None, cluster = None\<rparr>,
                   \<lparr>name = Some ''b'', image_rel = Some ''b.png'', cluster = None\<rparr>]"

definition example_disk :: disk where
  "example_disk = \<lparr>emb_file = Content example_matrix, meta_file = Content example_meta\<rparr>"

definition example_loaded :: actor_index where
  "example_loaded =
     \<lparr>loaded = True, emb = Some (normalize_rows example_matrix), meta = Some example_meta\<rparr>"

definition missing_disk :: disk where
  "missing_disk = \<lparr>emb_file = Content example_matrix, meta_file = Absent\<rparr>"

definition mismatch_disk :: disk where
  "mismatch_disk = \<lparr>emb_file = Content example_matrix, meta_file = Content (tl example_meta)\<rparr>"

definition example_upload :: upload where
  "example_upload = \<lparr>filename = Some ''q.png'', content_type = Some ''image/png'', contents = [1, 2, 3]\<rparr>"

definition example_embedding :: "bytes \<Rightarrow> exn + vec" where
  "example_embedding b = (if b = [] then Inl OtherError else Inr [1, 0])"

definition big_upload :: upload where
  "big_upload = \<lparr>filename = Some ''big.png'', content_type = Some ''image/png'',
                  contents = replicate 10485761 0\<rparr>"

definition corrupt_upload :: upload where
  "corrupt_upload = \<lparr>filename = Some ''broken.png'', content_type = Some ''image/png'', contents = []\<rparr>"

definition three_uploads :: "upload list" where
  "three_uploads = [example_upload, corrupt_upload, example_upload]"

text \<open>
  An embedding function that raises \<open>FileNotFoundError\<close> whatever the payload:
  \<open>image_embedding\<close> calls \<open>get_clip()\<close>, which loads the model from files, before it
  looks at the bytes.
\<close>

definition not_found_embedding :: "bytes \<Rightarrow> exn + vec" where
  "not_found_embedding b = Inl FileNotFoundError"

definition zero_disk :: disk where
  "zero_disk = \<lparr>emb_file = Content \<lparr>ncols = 2, mrows = [[0, 0]]\<rparr>,
                 meta_file = Content [\<lparr>name = Some ''z'', image_rel = None, cluster = None\<rparr>]\<rparr>"

definition example_groups :: groups where
  "example_groups = [(''bob'', [''data/bob/x.png'', ''data/bob/y.PNG'', ''data/bob/gone.jpg'']),
                     (''ann'', [''data/ann/1.jpg''])]"

definition example_env :: build_env where
  "example_env =
     \<lparr>read_file = map_of [(''data/ann/1.jpg'', [1]), (''data/bob/x.png'', [3]), (''data/bob/y.PNG'', [2])],
      embed = (\<lambda>b. if b = [1] then Inr [1, 0] else if b = [2] then Inr [0, 1] else Inl OtherError),
      save_image = (\<lambda>p target. True),
      kmeans = (\<lambda>k X. None),
      iter_folder = (\<lambda>p. if p = ''data'' then Inr example_groups else Inl FileNotFoundError),
      iter_csv = (\<lambda>p. Inl FileNotFoundError)\<rparr>"

definition both_modes :: cli_args where
  "both_modes = \<lparr>dataset_dir = Some ''data'', csv = Some ''table.csv'', clusters_per_actor = 1\<rparr>"

definition no_mode :: cli_args where
  "no_mode = \<lparr>dataset_dir = None, csv = Some [], clusters_per_actor = 1\<rparr>"

definition example_output :: "matrix \<times> meta_entry list" where
  "example_output =
     (\<lparr>ncols = 2, mrows = [[1 / (1 + eps), 0], [0, 1 / (1 + eps)]]\<rparr>,
      [\<lparr>name = Some ''ann'', image_rel = Some ''ann.jpg'', cluster = None\<rparr>,
       \<lparr>name = Some ''bob'', image_rel = Some ''bob.png'', cluster = None\<rparr>])"

definition opposite_env :: build_env where
  "opposite_env =
     \<lparr>read_file = map_of [(''data/zed/1.jpg'', [1]), (''data/zed/2.jpg'', [2])],
      embed = (\<lambda>b. if b = [1] then Inr [1, 0] else if b = [2] then Inr [- 1, 0] else Inl OtherError),
      save_image = (\<lambda>p target. True),
      kmeans = (\<lambda>k X. None),
      iter_folder = (\<lambda>p. Inl FileNotFoundError),
      iter_csv = (\<lambda>p. Inl FileNotFoundError)\<rparr>"

definition opposite_groups :: groups where
  "opposite_groups = [(''zed'', [''data/zed/1.jpg'', ''data/zed/2.jpg''])]"

definition cluster_env :: build_env where
  "cluster_env = example_env\<lparr>kmeans := (\<lambda>k X. if k = 2 \<and> length X = 2 then Some [1, 0] else None)\<rparr>"

definition cluster_groups :: groups where
  "cluster_groups = [(''bob'', [''data/bob/y.PNG'', ''data/ann/1.jpg''])]"

definition mean_groups :: groups where
  "mean_groups = [(''bob'', [''data/bob/x.png'', ''data/bob/y.PNG'']),
                  (''ann'', [''data/ann/1.jpg'', ''data/ann/2.jpg''])]"

definition mean_env :: build_env where
  "mean_env =
     \<lparr>read_file = map_of [(''data/ann/1.jpg'', [1]), (''data/ann/2.jpg'', [2]),
                          (''data/bob/x.png'', [9]), (''data/bob/y.PNG'', [3])],
      embed = (\<lambda>b. if b = [1] then Inr [3 / 5, 4 / 5]
                   else if b = [2] then Inr [3 / 5, - 4 / 5]
                   else if b = [3] then Inr [0, 1]
                   else Inl OtherError),
      save_image = (\<lambda>p target. True),
      kmeans = (\<lambda>k X. None),
      iter_folder = (\<lambda>p. Inl FileNotFoundError),
      iter_csv = (\<lambda>p. Inl FileNotFoundError)\<rparr>"

section \<open>Sorting and slicing\<close>

lemma length_argsort: "length (argsort xs) = length xs"
  by (simp add: argsort_def)

lemma set_argsort: "set (argsort xs) = {0..<length xs}"
  by (simp add: argsort_def)

lemma distinct_argsort: "distinct (argsort xs)"
  by (simp add: argsort_def)

lemma sorted_argsort: "sorted (map (\<lambda>i. xs ! i) (argsort xs))"
  by (simp add: argsort_def)

lemma length_py_take: "0 \<le> k \<Longrightarrow> length (py_take k xs) = min (nat k) (length xs)"
  by (simp add: py_take_def)

lemma set_py_take: "set (py_take k xs) \<subseteq> set xs"
  by (auto simp: py_take_def dest: in_set_takeD)

lemma distinct_py_take: "distinct xs \<Longrightarrow> distinct (py_take k xs)"
  by (simp add: py_take_def)

lemma py_take_map: "py_take k (map f xs) = map f (py_take k xs)"
  by (simp add: py_take_def take_map)

lemma sorted_py_take: "sorted xs \<Longrightarrow> sorted (py_take k xs)"
  by (simp add: py_take_def sorted_wrt_take)

lemma descending_selection:
  "sorted_wrt (\<ge>) (map (\<lambda>i. sims ! i) (py_take k (argsort (map uminus sims))))"
proof -
  let ?idx = "argsort (map uminus sims)"
  have a: "sorted (map (\<lambda>i. map uminus sims ! i) ?idx)" by (rule sorted_argsort)
  have "sorted (map (\<lambda>i. map uminus sims ! i) (py_take k ?idx))"
    using sorted_py_take [OF a, of k] by (simp add: py_take_map)
  moreover have "\<forall>i \<in> set (py_take k ?idx). i < length sims"
    using set_py_take [of k ?idx] by (auto simp: set_argsort)
  ultimately have "sorted (map (\<lambda>i. - (sims ! i)) (py_take k ?idx))"
    by (smt (verit) map_eq_conv nth_map)
  then show ?thesis
    by (simp add: sorted_wrt_map)
qed

section \<open>Top-K query\<close>

text \<open>
  C1. Once the index is loaded (the call to \<open>ensure_loaded\<close> returns normally, leaving a
  matrix \<open>m\<close> of \<open>N\<close> rows) and the query has the matrix's dimension, \<open>topk\<close> with
  \<open>k \<ge> 1\<close> returns a list of \<open>min k N\<close> pairs (row index, similarity), with the
  similarities in non-increasing order, distinct row indices below \<open>N\<close>, and every score
  the similarity of its row; for \<open>k \<ge> N\<close> these are all \<open>N\<close> rows.
\<close>

theorem topk_length_sorted:
  assumes "ensure_loaded s d = (Inr (), s')" and "emb s' = Some m"
    and "length q = ncols m" and "1 \<le> k"
  shows "\<exists>res. topk s d q k = (Inr res, s')
           \<and> length res = min (nat k) (length (mrows m))
           \<and> sorted_wrt (\<ge>) (map snd res)
           \<and> distinct (map fst res)
           \<and> list_all (\<lambda>(i, sc). i < length (mrows m) \<and> sc = sims_of m q ! i) res"
proof -
  let ?sims = "sims_of m q"
  let ?idx = "py_take k (argsort (map uminus ?sims))"
  let ?res = "map (\<lambda>i. (i, ?sims ! i)) ?idx"
  have n: "length ?sims = length (mrows m)" by (simp add: sims_of_def)
  have r: "topk s d q k = (Inr ?res, s')"
    using assms by (simp add: topk_def Let_def)
  have l: "length ?res = min (nat k) (length (mrows m))"
    using assms(4) n by (simp add: length_py_take length_argsort)
  have so: "sorted_wrt (\<ge>) (map snd ?res)"
    using descending_selection [of ?sims k] by (simp add: comp_def)
  have di: "distinct (map fst ?res)"
    by (simp add: comp_def distinct_py_take distinct_argsort)
  have "\<forall>i \<in> set ?idx. i < length (mrows m)"
    using set_py_take [of k "argsort (map uminus ?sims)"] n by (auto simp: set_argsort)
  then have al: "list_all (\<lambda>(i, sc). i < length (mrows m) \<and> sc = ?sims ! i) ?res"
    by (simp add: list_all_iff)
  from r l so di al show ?thesis by blast
qed

theorem topk_length_sorted_witness:
  "ensure_loaded init_index example_disk = (Inr (), example_loaded)
   \<and> emb example_loaded = Some (normalize_rows example_matrix)
   \<and> length [1, 0 :: real] = ncols (normalize_rows example_matrix)
   \<and> (1::int) \<le> 5
   \<and> (\<exists>res. topk init_index example_disk [1, 0] 5 = (Inr res, example_loaded)
           \<and> length res = min (nat 5) (length (mrows (normalize_rows example_matrix)))
           \<and> sorted_wrt (\<ge>) (map snd res)
           \<and> distinct (map fst res)
           \<and> list_all (\<lambda>(i, sc). i < length (mrows (normalize_rows example_matrix))
                                  \<and> sc = sims_of (normalize_rows example_matrix) [1, 0] ! i) res)"
proof -
  have h1: "ensure_loaded init_index example_disk = (Inr (), example_loaded)"
    by (simp add: ensure_loaded_def init_index_def example_disk_def example_loaded_def
        example_meta_def example_matrix_def normalize_rows_def)
  have h2: "emb example_loaded = Some (normalize_rows example_matrix)"
    by (simp add: example_loaded_def)
  have h3: "length [1, 0 :: real] = ncols (normalize_rows example_matrix)"
    by (simp add: normalize_rows_def example_matrix_def)
  have h4: "(1::int) \<le> 5" by simp
  show ?thesis
    using h1 h2 h3 h4 topk_length_sorted [OF h1 h2 h3 h4] by blast
qed

section \<open>Index lifecycle\<close>

lemma ensure_loaded_missing:
  "\<not> loaded s \<Longrightarrow> emb_file d = Absent \<or> meta_file d = Absent
     \<Longrightarrow> ensure_loaded s d = (Inl FileNotFoundError, s)"
  by (simp add: ensure_loaded_def)

lemma ensure_loaded_not_found_iff:
  "fst (ensure_loaded s d) = Inl FileNotFoundError
     \<longleftrightarrow> \<not> loaded s \<and> (emb_file d = Absent \<or> meta_file d = Absent)"
  by (simp add: ensure_loaded_def Let_def split: artifact.splits)

lemma topk_not_found_iff:
  "fst (topk s d q k) = Inl FileNotFoundError
     \<longleftrightarrow> \<not> loaded s \<and> (emb_file d = Absent \<or> meta_file d = Absent)"
proof -
  have "fst (topk s d q k) = Inl FileNotFoundError \<longleftrightarrow> fst (ensure_loaded s d) = Inl FileNotFoundError"
    by (cases "ensure_loaded s d") (auto simp: topk_def Let_def split: sum.splits option.splits)
  then show ?thesis by (simp add: ensure_loaded_not_found_iff)
qed

lemma topk_missing:
  "\<not> loaded s \<Longrightarrow> emb_file d = Absent \<or> meta_file d = Absent
     \<Longrightarrow> topk s d q k = (Inl FileNotFoundError, s)"
  by (simp add: topk_def ensure_loaded_missing)

lemma match_actors_503_iff:
  "status_of (fst (match_actors ie s d file top_k)) = 503
     \<longleftrightarrow> top_k_valid top_k \<and> \<not> not_image file \<and> \<not> too_large file
         \<and> (\<exists>q. ie (contents file) = Inr q \<and> fst (topk s d q top_k) = Inl FileNotFoundError)"
  by (cases "ie (contents file)")
     (auto simp: match_actors_def split: sum.splits prod.splits)

text \<open>
  C2. While the index is not loaded and the embedding file or the metadata file is absent,
  a query fails with \<open>FileNotFoundError\<close> (the "index not built" error) and leaves the
  index as it was; it never returns a result list. \<open>/match-actors\<close> answers such a
  query, for a request that passed validation and embedding, with status 503; and whenever
  it answers 503 the index was not loaded and an artifact was absent.
\<close>

theorem index_not_built:
  assumes "\<not> loaded s" and "emb_file d = Absent \<or> meta_file d = Absent"
  shows "topk s d q k = (Inl FileNotFoundError, s)
         \<and> (top_k_valid top_k \<and> \<not> not_image file \<and> \<not> too_large file \<and> ie (contents file) = Inr q
              \<longrightarrow> match_actors ie s d file top_k
                    = (Inl (HTTPException 503 (ExnText FileNotFoundError)), s))
         \<and> (\<forall>s0 d0 f0 k0. status_of (fst (match_actors ie s0 d0 f0 k0)) = 503
              \<longrightarrow> \<not> loaded s0 \<and> (emb_file d0 = Absent \<or> meta_file d0 = Absent))"
proof -
  have a: "\<And>q k. topk s d q k = (Inl FileNotFoundError, s)"
    using assms by (simp add: topk_missing)
  have b: "top_k_valid top_k \<and> \<not> not_image file \<and> \<not> too_large file \<and> ie (contents file) = Inr q
              \<longrightarrow> match_actors ie s d file top_k
                    = (Inl (HTTPException 503 (ExnText FileNotFoundError)), s)"
    by (simp add: match_actors_def a)
  have c: "\<forall>s0 d0 f0 k0. status_of (fst (match_actors ie s0 d0 f0 k0)) = 503
              \<longrightarrow> \<not> loaded s0 \<and> (emb_file d0 = Absent \<or> meta_file d0 = Absent)"
    using match_actors_503_iff topk_not_found_iff by blast
  from a b c show ?thesis by blast
qed

theorem index_not_built_witness:
  "loaded init_index = False
   \<and> (emb_file missing_disk = Absent \<or> meta_file missing_disk = Absent)
   \<and> topk init_index missing_disk [1, 0] 3 = (Inl FileNotFoundError, init_index)
   \<and> match_actors example_embedding init_index missing_disk example_upload 3
        = (Inl (HTTPException 503 (ExnText FileNotFoundError)), init_index)"
proof -
  have h1: "\<not> loaded init_index" by (simp add: init_index_def)
  have h2: "emb_file missing_disk = Absent \<or> meta_file missing_disk = Absent"
    by (simp add: missing_disk_def)
  have h3: "top_k_valid 3 \<and> \<not> not_image example_upload \<and> \<not> too_large example_upload
            \<and> example_embedding (contents example_upload) = Inr [1, 0]"
    by (simp add: top_k_valid_def not_image_def too_large_def example_upload_def
        example_embedding_def startswith_def)
  show ?thesis
    using h1 h2 h3
      index_not_built [OF h1 h2, of "[1, 0]" 3 3 example_upload example_embedding]
    by simp
qed

lemma ensure_loaded_mismatch:
  assumes "\<not> loaded s" and "emb_file d = Content m" and "meta_file d = Content ms"
    and "length ms \<noteq> length (mrows m)"
  shows "ensure_loaded s d = (Inl ValueError, s\<lparr>emb := Some (normalize_rows m), meta := Some ms\<rparr>)"
  using assms by (simp add: ensure_loaded_def Let_def normalize_rows_def)

text \<open>
  C3. Loading an index whose metadata list and matrix differ in length fails with
  \<open>ValueError\<close> (the corrupt-index error) and leaves the index not marked loaded. On the
  same artifacts the state reached is a fixed point of failure: every later query, for
  any vector and any \<open>k\<close>, fails with \<open>ValueError\<close> again and returns no results.
\<close>

theorem corrupt_index_not_loaded:
  assumes "\<not> loaded s" and "emb_file d = Content m" and "meta_file d = Content ms"
    and "length ms \<noteq> length (mrows m)"
  shows "\<exists>s'. ensure_loaded s d = (Inl ValueError, s') \<and> \<not> loaded s'
           \<and> topk s d q k = (Inl ValueError, s')
           \<and> (\<forall>q' k'. topk s' d q' k' = (Inl ValueError, s'))"
proof -
  let ?s' = "s\<lparr>emb := Some (normalize_rows m), meta := Some ms\<rparr>"
  have e: "ensure_loaded s d = (Inl ValueError, ?s')"
    using assms by (rule ensure_loaded_mismatch)
  have n: "\<not> loaded ?s'" using assms(1) by simp
  have e': "ensure_loaded ?s' d = (Inl ValueError, ?s')"
    using ensure_loaded_mismatch [OF n assms(2,3,4)] by simp
  have "topk s d q k = (Inl ValueError, ?s')" by (simp add: topk_def e)
  moreover have "\<forall>q' k'. topk ?s' d q' k' = (Inl ValueError, ?s')" by (simp add: topk_def e')
  ultimately show ?thesis using e n by blast
qed

theorem corrupt_index_not_loaded_witness:
  "loaded init_index = False
   \<and> emb_file mismatch_disk = Content example_matrix
   \<and> meta_file mismatch_disk = Content (tl example_meta)
   \<and> length (tl example_meta) \<noteq> length (mrows example_matrix)
   \<and> (\<exists>s'. ensure_loaded init_index mismatch_disk = (Inl ValueError, s') \<and> \<not> loaded s'
           \<and> topk init_index mismatch_disk [1, 0] 3 = (Inl ValueError, s')
           \<and> (\<forall>q' k'. topk s' mismatch_disk q' k' = (Inl ValueError, s')))"
proof -
  have h1: "\<not> loaded init_index" by (simp add: init_index_def)
  have h2: "emb_file mismatch_disk = Content example_matrix" by (simp add: mismatch_disk_def)
  have h3: "meta_file mismatch_disk = Content (tl example_meta)" by (simp add: mismatch_disk_def)
  have h4: "length (tl example_meta) \<noteq> length (mrows example_matrix)"
    by (simp add: example_meta_def example_matrix_def)
  show ?thesis
    using h1 h2 h3 h4 corrupt_index_not_loaded [OF h1 h2 h3 h4, of "[1, 0]" 3]
    by simp
qed

lemma ensure_loaded_fails_unloaded:
  "fst (ensure_loaded s d) = Inl e \<Longrightarrow> \<not> loaded (snd (ensure_loaded s d))"
  by (auto simp: ensure_loaded_def Let_def split: if_splits artifact.splits)

lemma ensure_loaded_unloaded_fst:
  "\<not> loaded s \<Longrightarrow> fst (ensure_loaded s d) = fst (ensure_loaded init_index d)"
  by (simp add: ensure_loaded_def init_index_def Let_def split: artifact.splits)

lemma ensure_loaded_unloaded_ok:
  "\<not> loaded s \<Longrightarrow> fst (ensure_loaded s d) = Inr ()
     \<Longrightarrow> snd (ensure_loaded s d) = snd (ensure_loaded init_index d)"
  by (cases s) (auto simp: ensure_loaded_def init_index_def Let_def split: artifact.splits if_splits)

lemma topk_unloaded_fst:
  assumes "\<not> loaded s"
  shows "fst (topk s d q k) = fst (topk init_index d q k)"
proof (cases "fst (ensure_loaded s d)")
  case (Inl e)
  then have "fst (ensure_loaded init_index d) = Inl e"
    using ensure_loaded_unloaded_fst [OF assms] by simp
  with Inl show ?thesis
    by (cases "ensure_loaded s d"; cases "ensure_loaded init_index d") (simp add: topk_def)
next
  case (Inr u)
  then have a: "fst (ensure_loaded init_index d) = Inr ()"
    using ensure_loaded_unloaded_fst [OF assms] by simp
  have b: "snd (ensure_loaded s d) = snd (ensure_loaded init_index d)"
    using ensure_loaded_unloaded_ok [OF assms] Inr by simp
  from Inr a b show ?thesis
    by (cases "ensure_loaded s d"; cases "ensure_loaded init_index d") (simp add: topk_def)
qed

lemma topk_valid_disk:
  assumes "\<not> loaded s" and "emb_file d = Content m" and "meta_file d = Content ms"
    and "length ms = length (mrows m)" and "length q = ncols m"
  shows "\<exists>res s'. topk s d q k = (Inr res, s') \<and> loaded s'"
  using assms by (simp add: topk_def ensure_loaded_def Let_def normalize_rows_def)

text \<open>
  C10. Whenever \<open>ensure_loaded\<close> raises, the loaded flag is false afterwards. The next
  query then reads the artifacts again: on any data directory its outcome is the one a
  fresh index gives. In particular, once both artifacts are present with matching
  lengths, a query of the matrix's dimension succeeds and marks the index loaded.
\<close>

theorem failed_load_not_cached:
  assumes "fst (ensure_loaded s d) = Inl e"
  shows "\<not> loaded (snd (ensure_loaded s d))
         \<and> (\<forall>d' q k. fst (topk (snd (ensure_loaded s d)) d' q k) = fst (topk init_index d' q k))
         \<and> (\<forall>d' m ms q k. emb_file d' = Content m \<and> meta_file d' = Content ms
               \<and> length ms = length (mrows m) \<and> length q = ncols m
             \<longrightarrow> (\<exists>res s'. topk (snd (ensure_loaded s d)) d' q k = (Inr res, s') \<and> loaded s'))"
proof -
  have n: "\<not> loaded (snd (ensure_loaded s d))"
    using assms by (rule ensure_loaded_fails_unloaded)
  show ?thesis
    using n topk_unloaded_fst [OF n] topk_valid_disk [OF n] by blast
qed

theorem failed_load_not_cached_witness:
  "fst (ensure_loaded init_index missing_disk) = Inl FileNotFoundError
   \<and> loaded (snd (ensure_loaded init_index missing_disk)) = False
   \<and> (\<exists>res s'. topk (snd (ensure_loaded init_index missing_disk)) example_disk [1, 0] 3 = (Inr res, s')
         \<and> loaded s')"
proof -
  have h: "fst (ensure_loaded init_index missing_disk) = Inl FileNotFoundError"
    by (simp add: ensure_loaded_def init_index_def missing_disk_def)
  have v: "emb_file example_disk = Content example_matrix \<and> meta_file example_disk = Content example_meta
           \<and> length example_meta = length (mrows example_matrix) \<and> length [1, 0 :: real] = ncols example_matrix"
    by (simp add: example_disk_def example_meta_def example_matrix_def)
  show ?thesis
    using h v failed_load_not_cached [OF h] by blast
qed

section \<open>Single-image endpoint\<close>

lemma too_large_rejected:
  "too_large file \<Longrightarrow>
     match_actors ie s d file top_k =
       (if \<not> top_k_valid top_k then (Inl (HTTPException 422 RequestValidation), s)
        else if not_image file then (Inl (HTTPException 400 UploadAnImage), s)
        else (Inl (HTTPException 413 FileTooLarge), s))"
  by (simp add: match_actors_def)

lemma big_upload_facts:
  "too_large big_upload" "\<not> not_image big_upload"
  by (simp_all add: too_large_def not_image_def big_upload_def startswith_def)

text \<open>
  C7 (as amended). \<open>/match-actors\<close> rejects an upload whose payload exceeds 10 MiB
  before embedding it or querying the index: for a request with a valid \<open>top_k\<close> and an
  image content type the response status is 413, and the index is left as it was.
\<close>

theorem oversized_upload_413:
  assumes "too_large file" and "top_k_valid top_k" and "\<not> not_image file"
  shows "match_actors ie s d file top_k = (Inl (HTTPException 413 FileTooLarge), s)
         \<and> status_of (fst (match_actors ie s d file top_k)) = 413"
  using assms by (simp add: too_large_rejected)

theorem oversized_upload_413_witness:
  "too_large big_upload \<and> top_k_valid 3 \<and> not_image big_upload = False
   \<and> match_actors example_embedding init_index example_disk big_upload 3
        = (Inl (HTTPException 413 FileTooLarge), init_index)"
proof -
  have h1: "too_large big_upload" by (rule big_upload_facts)
  have h2: "top_k_valid 3" by (simp add: top_k_valid_def)
  have h3: "\<not> not_image big_upload" by (rule big_upload_facts)
  show ?thesis
    using h1 h2 h3 oversized_upload_413 [OF h1 h2 h3, of example_embedding init_index example_disk]
    by simp
qed

text \<open>
  C7, counterexample. An upload of 10 MiB + 1 bytes with content type \<open>image/png\<close> is answered with
  status 413, not 400.
\<close>

theorem oversized_upload_not_400:
  "length (contents big_upload) = 10 * 1024 * 1024 + 1
   \<and> status_of (fst (match_actors example_embedding init_index example_disk big_upload 3)) = 413
   \<and> status_of (fst (match_actors example_embedding init_index example_disk big_upload 3)) \<noteq> 400"
  by (simp add: match_actors_def top_k_valid_def big_upload_facts) (simp add: big_upload_def)

section \<open>Batch endpoint\<close>

text \<open>
  A second load attempt on the same data directory repeats the first: the outcome and
  the index after it are the same. So within one request every query behaves as on the
  index the request started with.
\<close>

lemma ensure_loaded_again:
  "ensure_loaded (snd (ensure_loaded s d)) d = ensure_loaded s d"
  by (simp add: ensure_loaded_def Let_def split: artifact.splits)

lemma snd_topk: "snd (topk s d q k) = snd (ensure_loaded s d)"
  by (cases "ensure_loaded s d")
     (auto simp: topk_def Let_def split: sum.splits option.splits)

lemma topk_again: "topk (snd (ensure_loaded s d)) d q k = topk s d q k"
  by (simp add: topk_def ensure_loaded_again)

lemma batch_try_fst:
  "s' = s \<or> s' = snd (ensure_loaded s d)
     \<Longrightarrow> fst (batch_try ie s' d f k) = fst (batch_try ie s d f k)"
  by (cases "topk s d (projr (ie (contents f))) k")
     (auto simp: batch_try_def topk_again snd_topk split: sum.splits prod.splits
           dest: arg_cong [where f = snd])

lemma snd_batch_try:
  "snd (batch_try ie s d f k) = s \<or> snd (batch_try ie s d f k) = snd (ensure_loaded s d)"
proof (cases "ie (contents f)")
  case (Inl e)
  then show ?thesis by (simp add: batch_try_def)
next
  case (Inr q)
  obtain r b where t: "topk s d q k = (r, b)" by (cases "topk s d q k")
  then have "b = snd (ensure_loaded s d)" using snd_topk [of s d q k] by simp
  with Inr t show ?thesis by (cases r) (simp_all add: batch_try_def)
qed

lemma batch_step_fst:
  "s' = s \<or> s' = snd (ensure_loaded s d)
     \<Longrightarrow> fst (batch_step ie s' d f k) = fst (batch_step ie s d f k)"
  using batch_try_fst [of s' s d ie f k]
  by (cases "batch_try ie s' d f k"; cases "batch_try ie s d f k")
     (auto simp: batch_step_def split: sum.splits)

lemma snd_batch_step:
  assumes "s' = s \<or> s' = snd (ensure_loaded s d)"
  shows "snd (batch_step ie s' d f k) = s \<or> snd (batch_step ie s' d f k) = snd (ensure_loaded s d)"
proof -
  have "snd (batch_step ie s' d f k) = s' \<or> snd (batch_step ie s' d f k) = snd (batch_try ie s' d f k)"
    by (cases "batch_try ie s' d f k") (auto simp: batch_step_def split: sum.splits)
  moreover have "snd (batch_try ie s' d f k) = s' \<or> snd (batch_try ie s' d f k) = snd (ensure_loaded s' d)"
    by (rule snd_batch_try)
  moreover have "snd (ensure_loaded s' d) = snd (ensure_loaded s d)"
    using assms by (auto simp: ensure_loaded_again)
  ultimately show ?thesis using assms by auto
qed

lemma batch_step_error:
  "fst (batch_step ie s d f k) = Inl err \<Longrightarrow> err = HTTPException 503 (ExnText FileNotFoundError)"
  by (cases "batch_try ie s d f k")
     (auto simp: batch_step_def split: sum.splits if_splits)

text \<open>
  The loop gives every file the entry its body computes on the index the request started
  with, unless the body of some file ends the request.
\<close>

lemma batch_loop_items:
  assumes "s' = s \<or> s' = snd (ensure_loaded s d)"
  shows "fst (batch_loop ie d k s' fs outs) =
           (if list_ex (\<lambda>f. isl (fst (batch_step ie s d f k))) fs
            then Inl (HTTPException 503 (ExnText FileNotFoundError))
            else Inr (outs @ map (\<lambda>f. projr (fst (batch_step ie s d f k))) fs))"
  using assms
proof (induction fs arbitrary: s' outs)
  case Nil
  then show ?case by simp
next
  case (Cons f fs)
  have eq: "fst (batch_step ie s' d f k) = fst (batch_step ie s d f k)"
    using Cons.prems by (rule batch_step_fst)
  have st: "snd (batch_step ie s' d f k) = s \<or> snd (batch_step ie s' d f k) = snd (ensure_loaded s d)"
    using Cons.prems by (rule snd_batch_step)
  show ?case
  proof (cases "fst (batch_step ie s d f k)")
    case (Inl err)
    then have "err = HTTPException 503 (ExnText FileNotFoundError)"
      by (rule batch_step_error)
    with Inl eq show ?thesis
      by (cases "batch_step ie s' d f k") simp
  next
    case (Inr item)
    obtain b where bs: "batch_step ie s' d f k = (Inr item, b)"
      using Inr eq by (cases "batch_step ie s' d f k") simp
    have b: "b = s \<or> b = snd (ensure_loaded s d)"
      using st bs by simp
    have "fst (batch_loop ie d k s' (f # fs) outs) = fst (batch_loop ie d k b fs (outs @ [item]))"
      using bs by simp
    also have "\<dots> = (if list_ex (\<lambda>f. isl (fst (batch_step ie s d f k))) fs
            then Inl (HTTPException 503 (ExnText FileNotFoundError))
            else Inr ((outs @ [item]) @ map (\<lambda>f. projr (fst (batch_step ie s d f k))) fs))"
      using b by (rule Cons.IH)
    finally show ?thesis using Inr by simp
  qed
qed

lemma result_of_not_found: "result_of s r \<noteq> Inl FileNotFoundError"
  by (simp add: result_of_def info_def Let_def split: sum.splits option.splits)

lemma results_of_not_found: "results_of s tops \<noteq> Inl FileNotFoundError"
proof (induction tops)
  case Nil
  then show ?case by simp
next
  case (Cons r rs)
  then show ?case
    using result_of_not_found [of s r] by (auto split: sum.splits)
qed

lemma batch_try_not_found_iff:
  "fst (batch_try ie s d f k) = Inl FileNotFoundError
     \<longleftrightarrow> ie (contents f) = Inl FileNotFoundError
         \<or> (\<not> isl (ie (contents f)) \<and> \<not> loaded s \<and> (emb_file d = Absent \<or> meta_file d = Absent))"
proof (cases "ie (contents f)")
  case (Inl e)
  then show ?thesis by (simp add: batch_try_def)
next
  case (Inr q)
  obtain r b where t: "topk s d q k = (r, b)" by (cases "topk s d q k")
  have "fst (batch_try ie s d f k) = Inl FileNotFoundError \<longleftrightarrow> r = Inl FileNotFoundError"
    using Inr t results_of_not_found [of b] by (cases r) (simp_all add: batch_try_def)
  moreover have "r = Inl FileNotFoundError
      \<longleftrightarrow> \<not> loaded s \<and> (emb_file d = Absent \<or> meta_file d = Absent)"
    using topk_not_found_iff [of s d q k] t by simp
  ultimately show ?thesis using Inr by simp
qed

lemma batch_step_aborts_iff:
  "isl (fst (batch_step ie s d f k))
     \<longleftrightarrow> \<not> not_image f \<and> \<not> too_large f \<and> fst (batch_try ie s d f k) = Inl FileNotFoundError"
  by (cases "batch_try ie s d f k")
     (auto simp: batch_step_def split: sum.splits)

lemma batch_step_entry:
  assumes "\<not> isl (fst (batch_step ie s d f k))"
  shows "item_filename (projr (fst (batch_step ie s d f k))) = filename f
         \<and> (has_error (projr (fst (batch_step ie s d f k)))
              \<longleftrightarrow> not_image f \<or> too_large f \<or> isl (fst (batch_try ie s d f k)))"
  using assms
  by (cases "batch_try ie s d f k")
     (auto simp: batch_step_def split: sum.splits if_splits)

subsection \<open>The example index and request\<close>

lemma example_load: "ensure_loaded init_index example_disk = (Inr (), example_loaded)"
  by (simp add: ensure_loaded_def init_index_def example_disk_def example_loaded_def
      example_meta_def example_matrix_def normalize_rows_def)

lemma example_reload: "ensure_loaded example_loaded example_disk = (Inr (), example_loaded)"
  by (simp add: ensure_loaded_def example_loaded_def)

lemma example_rows:
  "normalize_rows example_matrix = \<lparr>ncols = 2, mrows = [[0, 1 / (1 + eps)], [1 / (1 + eps), 0]]\<rparr>"
  by (simp add: normalize_rows_def example_matrix_def eps_normalize_def l2norm_def)

lemma example_emb:
  "emb example_loaded = Some \<lparr>ncols = 2, mrows = [[0, 1 / (1 + eps)], [1 / (1 + eps), 0]]\<rparr>"
  by (simp add: example_loaded_def example_rows)

lemma example_query_loaded:
  "ensure_loaded s example_disk = (Inr (), example_loaded) \<Longrightarrow>
   topk s example_disk [1, 0] 3 = (Inr [(1, 1 / (1 + eps) / (1 + eps)), (0, 0)], example_loaded)"
  by (simp add: topk_def example_emb sims_of_def eps_normalize_def l2norm_def dot_def argsort_def
      py_take_def eps_def)

lemma example_query:
  "topk init_index example_disk [1, 0] 3 = (Inr [(1, 1 / (1 + eps) / (1 + eps)), (0, 0)], example_loaded)"
  "topk example_loaded example_disk [1, 0] 3 = (Inr [(1, 1 / (1 + eps) / (1 + eps)), (0, 0)], example_loaded)"
  by (simp_all only: example_query_loaded [OF example_load] example_query_loaded [OF example_reload])

lemma example_results:
  "result_of example_loaded (Suc 0, x) =
     Inr \<lparr>mr_name = ''b'', mr_score = x, mr_image_url = Some ''/actors/b.png''\<rparr>"
  "result_of example_loaded (0, y) = Inr \<lparr>mr_name = ''a'', mr_score = y, mr_image_url = None\<rparr>"
  by (simp_all add: result_of_def info_def example_loaded_def example_meta_def)

lemma example_batch:
  "match_actors_batch example_embedding init_index example_disk three_uploads 3 =
     (Inr [ItemResults (Some ''q.png'')
             [\<lparr>mr_name = ''b'', mr_score = 1 / (1 + eps) / (1 + eps), mr_image_url = Some ''/actors/b.png''\<rparr>,
              \<lparr>mr_name = ''a'', mr_score = 0, mr_image_url = None\<rparr>],
           ItemError (Some ''broken.png'') (ProcessingFailed OtherError),
           ItemResults (Some ''q.png'')
             [\<lparr>mr_name = ''b'', mr_score = 1 / (1 + eps) / (1 + eps), mr_image_url = Some ''/actors/b.png''\<rparr>,
              \<lparr>mr_name = ''a'', mr_score = 0, mr_image_url = None\<rparr>]],
      example_loaded)"
  by (simp add: match_actors_batch_def top_k_valid_def three_uploads_def batch_step_def batch_try_def
      not_image_def too_large_def startswith_def example_upload_def corrupt_upload_def
      example_embedding_def example_query example_results)

text \<open>
  What the batch endpoint does for a non-empty batch with a valid \<open>top_k\<close> as long as no
  file's embedding raises \<open>FileNotFoundError\<close>: when the index is loaded or both
  artifacts are on disk, the response holds one entry per uploaded file, in order and under
  the file's name, and an entry carries an error exactly when the file is not an image, is
  larger than 10 MiB, or its embedding, query or result rows raised; when the index is not
  built and some file reaches the query, the whole request is answered with status 503.
\<close>

theorem batch_entries:
  assumes "top_k_valid top_k" and "files \<noteq> []"
    and "\<forall>f \<in> set files. ie (contents f) \<noteq> Inl FileNotFoundError"
  shows "(loaded s \<or> (emb_file d \<noteq> Absent \<and> meta_file d \<noteq> Absent) \<longrightarrow>
            (\<exists>items s'. match_actors_batch ie s d files top_k = (Inr items, s')
               \<and> length items = length files
               \<and> (\<forall>i < length files.
                     item_filename (items ! i) = filename (files ! i)
                     \<and> (has_error (items ! i)
                          \<longleftrightarrow> not_image (files ! i) \<or> too_large (files ! i)
                              \<or> isl (fst (batch_try ie s d (files ! i) top_k))))))
         \<and> (\<not> loaded s \<and> (emb_file d = Absent \<or> meta_file d = Absent)
              \<and> (\<exists>f \<in> set files. \<not> not_image f \<and> \<not> too_large f \<and> \<not> isl (ie (contents f))) \<longrightarrow>
            (\<exists>s'. match_actors_batch ie s d files top_k
                     = (Inl (HTTPException 503 (ExnText FileNotFoundError)), s')))"
proof (intro conjI impI)
  let ?step = "\<lambda>f. fst (batch_step ie s d f top_k)"
  have loop: "fst (match_actors_batch ie s d files top_k) =
           (if list_ex (\<lambda>f. isl (?step f)) files
            then Inl (HTTPException 503 (ExnText FileNotFoundError))
            else Inr (map (\<lambda>f. projr (?step f)) files))"
    using assms(1,2) batch_loop_items [of s s d ie top_k files "[]"]
    by (simp add: match_actors_batch_def)
  {
    assume av: "loaded s \<or> (emb_file d \<noteq> Absent \<and> meta_file d \<noteq> Absent)"
    have no: "\<forall>f \<in> set files. \<not> isl (?step f)"
      using assms(3) av by (auto simp: batch_step_aborts_iff batch_try_not_found_iff)
    then have "\<not> list_ex (\<lambda>f. isl (?step f)) files" by (simp add: list_ex_iff)
    with loop have r: "fst (match_actors_batch ie s d files top_k) = Inr (map (\<lambda>f. projr (?step f)) files)"
      by simp
    have "\<forall>i < length files.
            item_filename (map (\<lambda>f. projr (?step f)) files ! i) = filename (files ! i)
            \<and> (has_error (map (\<lambda>f. projr (?step f)) files ! i)
                 \<longleftrightarrow> not_image (files ! i) \<or> too_large (files ! i)
                     \<or> isl (fst (batch_try ie s d (files ! i) top_k)))"
      using no batch_step_entry [of ie s d _ top_k] by simp
    with r show "\<exists>items s'. match_actors_batch ie s d files top_k = (Inr items, s')
               \<and> length items = length files
               \<and> (\<forall>i < length files.
                     item_filename (items ! i) = filename (files ! i)
                     \<and> (has_error (items ! i)
                          \<longleftrightarrow> not_image (files ! i) \<or> too_large (files ! i)
                              \<or> isl (fst (batch_try ie s d (files ! i) top_k))))"
      by (cases "match_actors_batch ie s d files top_k") auto
  }
  {
    assume mi: "\<not> loaded s \<and> (emb_file d = Absent \<or> meta_file d = Absent)
              \<and> (\<exists>f \<in> set files. \<not> not_image f \<and> \<not> too_large f \<and> \<not> isl (ie (contents f)))"
    then have "list_ex (\<lambda>f. isl (?step f)) files"
      by (auto simp: list_ex_iff batch_step_aborts_iff batch_try_not_found_iff)
    with loop show "\<exists>s'. match_actors_batch ie s d files top_k
                     = (Inl (HTTPException 503 (ExnText FileNotFoundError)), s')"
      by (cases "match_actors_batch ie s d files top_k") auto
  }
qed

theorem batch_entries_witness:
  "top_k_valid 3 \<and> three_uploads \<noteq> []
   \<and> list_all (\<lambda>f. example_embedding (contents f) \<noteq> Inl FileNotFoundError) three_uploads
   \<and> (\<exists>items s'. match_actors_batch example_embedding init_index example_disk three_uploads 3 = (Inr items, s')
          \<and> length items = length three_uploads
          \<and> map has_error items = [False, True, False])
   \<and> (\<exists>s'. match_actors_batch example_embedding init_index missing_disk three_uploads 3
              = (Inl (HTTPException 503 (ExnText FileNotFoundError)), s'))"
proof -
  have h1: "top_k_valid 3" by (simp add: top_k_valid_def)
  have h2: "three_uploads \<noteq> []" by (simp add: three_uploads_def)
  have h3: "\<forall>f \<in> set three_uploads. example_embedding (contents f) \<noteq> Inl FileNotFoundError"
    by (simp add: three_uploads_def example_embedding_def)
  have a: "loaded init_index \<or> (emb_file example_disk \<noteq> Absent \<and> meta_file example_disk \<noteq> Absent)"
    by (simp add: example_disk_def)
  have b: "\<not> loaded init_index \<and> (emb_file missing_disk = Absent \<or> meta_file missing_disk = Absent)
           \<and> (\<exists>f \<in> set three_uploads. \<not> not_image f \<and> \<not> too_large f \<and> \<not> isl (example_embedding (contents f)))"
    by (simp add: init_index_def missing_disk_def three_uploads_def example_upload_def
        not_image_def too_large_def startswith_def example_embedding_def)
  obtain items s' where i:
    "match_actors_batch example_embedding init_index example_disk three_uploads 3 = (Inr items, s')"
    "length items = length three_uploads"
    using batch_entries [OF h1 h2 h3, of init_index example_disk] a by blast
  have "map has_error items = [False, True, False]"
    using i(1) by (simp add: example_batch) auto
  with i have c: "\<exists>items s'. match_actors_batch example_embedding init_index example_disk three_uploads 3 = (Inr items, s')
          \<and> length items = length three_uploads
          \<and> map has_error items = [False, True, False]"
    by auto
  have d: "\<exists>s'. match_actors_batch example_embedding init_index missing_disk three_uploads 3
              = (Inl (HTTPException 503 (ExnText FileNotFoundError)), s')"
    using batch_entries [OF h1 h2 h3, of init_index missing_disk] b by blast
  from h1 h2 h3 c d show ?thesis by (simp add: list_all_iff)
qed

text \<open>
  C4. The batch endpoint does not keep every per-file failure apart from the
  index-not-built failure: its one \<open>try\<close> block holds the embedding and the query, so a
  \<open>FileNotFoundError\<close> raised by the embedding of a file is answered like a missing
  index. Three image uploads on a built and loaded index, with an embedding function that
  raises \<open>FileNotFoundError\<close>: the batch request is answered with status 503 and no
  entries, where the specification asks for an error entry per file; the single-image endpoint,
  whose embedding has a \<open>try\<close> block of its own, answers the same failure with status 400.
\<close>

theorem batch_embedding_not_found_aborts:
  "match_actors_batch not_found_embedding example_loaded example_disk three_uploads 3
     = (Inl (HTTPException 503 (ExnText FileNotFoundError)), example_loaded)
   \<and> match_actors not_found_embedding example_loaded example_disk example_upload 3
     = (Inl (HTTPException 400 (ImageProcessingFailed FileNotFoundError)), example_loaded)"
  by (simp add: match_actors_batch_def match_actors_def top_k_valid_def three_uploads_def
      batch_step_def batch_try_def not_image_def too_large_def startswith_def example_upload_def
      not_found_embedding_def)

section \<open>Norms and dot products\<close>

lemma eps_pos: "0 < eps"
  by (simp add: eps_def)

lemma sum_squares_nonneg: "0 \<le> sum_list (map (\<lambda>x. x * x) (v :: real list))"
  by (induction v) simp_all

lemma l2norm_nonneg: "0 \<le> l2norm v"
  by (simp add: l2norm_def sum_squares_nonneg)

lemma l2norm_pair: "l2norm [0, a] = \<bar>a\<bar>" "l2norm [a, 0] = \<bar>a\<bar>"
  by (simp_all add: l2norm_def)

lemma dot_self: "dot v v = sum_list (map (\<lambda>x. x * x) v)"
  by (induction v) (simp_all add: dot_def)

lemma dot_self_norm: "dot v v = (l2norm v)\<^sup>2"
  by (simp add: dot_self l2norm_def sum_squares_nonneg)

lemma dot_scale_right: "dot u (map (\<lambda>x. x / c) v) = dot u v / c"
proof (induction u arbitrary: v)
  case Nil
  then show ?case by (simp add: dot_def)
next
  case (Cons a u)
  then show ?case by (cases v) (simp_all add: dot_def add_divide_distrib)
qed

text \<open>Norm and dot product written as sums over the components.\<close>

lemma sum_list_squares_nth:
  "sum_list (map (\<lambda>x. x * x) (v :: real list)) = (\<Sum>c<length v. (v ! c)\<^sup>2)"
proof -
  have "sum_list (map (\<lambda>x. x * x) v) = (\<Sum>c = 0..<length v. map (\<lambda>x. x * x) v ! c)"
    using sum_list_sum_nth [of "map (\<lambda>x. x * x) v"] by simp
  also have "\<dots> = (\<Sum>c = 0..<length v. (v ! c)\<^sup>2)"
    by (rule sum.cong) (simp_all add: power2_eq_square)
  finally show ?thesis by (simp add: atLeast0LessThan)
qed

lemma l2norm_explicit: "l2norm v = sqrt (\<Sum>c<length v. (v ! c)\<^sup>2)"
  by (simp add: l2norm_def sum_list_squares_nth)

lemma dot_explicit:
  "length u = length v \<Longrightarrow> dot u v = (\<Sum>c<length v. u ! c * v ! c)"
proof -
  assume l: "length u = length v"
  have "dot u v = (\<Sum>c = 0..<length (map2 (*) u v). map2 (*) u v ! c)"
    unfolding dot_def by (rule sum_list_sum_nth)
  also have "\<dots> = (\<Sum>c = 0..<length v. u ! c * v ! c)"
    using l by (intro sum.cong) simp_all
  finally show ?thesis by (simp add: atLeast0LessThan)
qed

section \<open>Querying a row of the index\<close>

lemma sort_key_least_first:
  assumes "i \<in> set xs" and "\<forall>j \<in> set xs. j \<noteq> i \<longrightarrow> f i < f j"
  shows "\<exists>rest. sort_key f xs = i # rest"
proof (cases "sort_key f xs")
  case Nil
  then have "set (sort_key f xs) = {}" by simp
  then show ?thesis using assms(1) by simp
next
  case (Cons h t)
  have s: "sorted (map f (h # t))" using sorted_sort_key [of f xs] Cons by simp
  have m: "set (h # t) = set xs" using set_sort [of f xs] Cons by simp
  have "h = i"
  proof (rule ccontr)
    assume n: "h \<noteq> i"
    then have "i \<in> set t" using m assms(1) by auto
    then have "f h \<le> f i" using s by auto
    moreover have "h \<in> set xs" using m by auto
    then have "f i < f h" using assms(2) n by blast
    ultimately show False by simp
  qed
  then show ?thesis using Cons by simp
qed

lemma py_take_first: "1 \<le> k \<Longrightarrow> py_take k (x # xs) = x # take (nat k - 1) xs"
  by (cases "nat k") (simp_all add: py_take_def)

lemma sims_of_nth:
  "j < length (mrows m) \<Longrightarrow> sims_of m q ! j = dot (mrows m ! j) q / (l2norm q + eps)"
  by (simp add: sims_of_def eps_normalize_def dot_scale_right)

text \<open>
  The score of a row of norm \<open>n\<close> against itself is \<open>n\<^sup>2 / (n + \<epsilon>)\<close>: within \<open>1 / 10 ^ 4\<close>
  of 1 when \<open>n\<close> is within \<open>1 / 10 ^ 5\<close> of 1.
\<close>

lemma self_score_near_one:
  assumes "1 - 1 / 10 ^ 5 \<le> n" and "n \<le> 1 + 1 / 10 ^ 5"
  shows "\<bar>n\<^sup>2 / (n + eps) - 1\<bar> \<le> 1 / 10 ^ 4"
proof -
  have n0: "0 < n" using assms(1) by simp
  have p: "0 < n + eps" using n0 eps_pos by linarith
  have "n\<^sup>2 \<le> n * (n + eps)"
    using n0 eps_pos by (simp add: power2_eq_square algebra_simps)
  then have "n\<^sup>2 / (n + eps) \<le> n" using p by (simp add: pos_divide_le_eq)
  then have up: "n\<^sup>2 / (n + eps) \<le> 1 + 1 / 10 ^ 5" using assms(2) by linarith
  have "(n - eps) * (n + eps) \<le> n\<^sup>2"
    by (simp add: power2_eq_square algebra_simps)
  then have "n - eps \<le> n\<^sup>2 / (n + eps)" using p by (simp add: pos_le_divide_eq)
  then have lo: "1 - 1 / 10 ^ 5 - eps \<le> n\<^sup>2 / (n + eps)" using assms(1) by linarith
  have e: "eps \<le> 1 / 10 ^ 5" by (simp add: eps_def)
  define t where "t = n\<^sup>2 / (n + eps)"
  have "t \<le> 1 + 1 / 10 ^ 5" and "1 - 1 / 10 ^ 5 - eps \<le> t"
    using up lo by (simp_all only: t_def)
  then have "\<bar>t - 1\<bar> \<le> 2 / 10 ^ 5" using e by (simp only: abs_le_iff) linarith
  also have "\<dots> \<le> (1 / 10 ^ 4 :: real)" by simp
  finally show ?thesis by (simp only: t_def)
qed

text \<open>
  C9 (as amended). When the loaded matrix holds a row \<open>v\<close> whose Euclidean norm is within
  \<open>1 / 10 ^ 5\<close> of 1, and the dot product of every other row with \<open>v\<close> is at most that
  of \<open>v\<close> with itself less \<open>1 / 10 ^ 3\<close>, a query with \<open>v\<close> and \<open>k \<ge> 1\<close> returns that
  row's index first, with a score within \<open>1 / 10 ^ 4\<close> of 1. The norm and the dot
  products are written out as sums over the \<open>ncols m\<close> components.
\<close>

theorem topk_own_row_first:
  assumes "ensure_loaded s d = (Inr (), s')" and "emb s' = Some m" and "wf_matrix m"
    and "i < length (mrows m)" and "v = mrows m ! i"
    and "1 - 1 / 10 ^ 5 \<le> sqrt (\<Sum>c<ncols m. (v ! c)\<^sup>2)"
    and "sqrt (\<Sum>c<ncols m. (v ! c)\<^sup>2) \<le> 1 + 1 / 10 ^ 5"
    and "\<forall>j < length (mrows m). j \<noteq> i \<longrightarrow>
           (\<Sum>c<ncols m. mrows m ! j ! c * v ! c) \<le> (\<Sum>c<ncols m. (v ! c)\<^sup>2) - 1 / 10 ^ 3"
    and "1 \<le> k"
  shows "\<exists>sc rest. topk s d v k = (Inr ((i, sc) # rest), s') \<and> \<bar>sc - 1\<bar> \<le> 1 / 10 ^ 4"
proof -
  let ?sims = "sims_of m v"
  let ?n = "length (mrows m)"
  have len: "\<forall>j < ?n. length (mrows m ! j) = ncols m"
    using assms(3) by (simp add: wf_matrix_def list_all_length)
  have lv: "length v = ncols m" using len assms(4,5) by simp
  have nv: "l2norm v = sqrt (\<Sum>c<ncols m. (v ! c)\<^sup>2)"
    using lv by (simp add: l2norm_explicit)
  have vv: "dot v v = (\<Sum>c<ncols m. (v ! c)\<^sup>2)"
    using lv by (simp add: dot_explicit power2_eq_square)
  have pos: "0 < l2norm v + eps" using l2norm_nonneg [of v] eps_pos by linarith
  have si: "?sims ! i = (l2norm v)\<^sup>2 / (l2norm v + eps)"
    using assms(4,5) by (simp add: sims_of_nth dot_self_norm)
  have less: "\<forall>j \<in> set [0..<length (map uminus ?sims)]. j \<noteq> i \<longrightarrow>
                map uminus ?sims ! i < map uminus ?sims ! j"
  proof (intro ballI impI)
    fix j assume j: "j \<in> set [0..<length (map uminus ?sims)]" and ne: "j \<noteq> i"
    then have jn: "j < ?n" by (simp add: sims_of_def)
    have "dot (mrows m ! j) v = (\<Sum>c<ncols m. mrows m ! j ! c * v ! c)"
      using len jn lv by (simp add: dot_explicit)
    then have "dot (mrows m ! j) v \<le> dot v v - 1 / 10 ^ 3"
      using assms(8) jn ne vv by simp
    then have "dot (mrows m ! j) v < dot v v" by simp
    then have "?sims ! j < ?sims ! i"
      using pos jn assms(4,5) by (simp add: sims_of_nth divide_strict_right_mono)
    then show "map uminus ?sims ! i < map uminus ?sims ! j"
      using jn assms(4) by (simp add: sims_of_def)
  qed
  have "i \<in> set [0..<length (map uminus ?sims)]"
    using assms(4) by (simp add: sims_of_def)
  then obtain rest where a: "argsort (map uminus ?sims) = i # rest"
    unfolding argsort_def using sort_key_least_first [OF _ less] by blast
  have t: "topk s d v k = (Inr ((i, ?sims ! i) # map (\<lambda>i. (i, ?sims ! i)) (take (nat k - 1) rest)), s')"
    using assms(1,2,9) lv by (simp add: topk_def Let_def a py_take_first)
  have b: "\<bar>?sims ! i - 1\<bar> \<le> 1 / 10 ^ 4"
    unfolding si using assms(6,7) nv by (intro self_score_near_one) simp_all
  from t b show ?thesis by blast
qed

text \<open>
  The example index: its row 0 has norm \<open>1 / (1 + \<epsilon>)\<close> and is orthogonal to row 1.
\<close>

lemma example_first_row:
  "sqrt (\<Sum>c<ncols (normalize_rows example_matrix). ([0, 1 / (1 + eps)] ! c)\<^sup>2) = 1 / (1 + eps)"
  "(\<Sum>c<ncols (normalize_rows example_matrix). ([0, 1 / (1 + eps)] ! c)\<^sup>2) = (1 / (1 + eps))\<^sup>2"
  "(\<Sum>c<ncols (normalize_rows example_matrix).
       mrows (normalize_rows example_matrix) ! 1 ! c * [0, 1 / (1 + eps)] ! c) = 0"
proof -
  have a: "ncols (normalize_rows example_matrix) = 2"
    and b: "mrows (normalize_rows example_matrix) ! 1 = [1 / (1 + eps), 0]"
    by (simp_all add: example_rows)
  have s: "(\<Sum>c<2. ([0, 1 / (1 + eps)] ! c)\<^sup>2) = (1 / (1 + eps))\<^sup>2"
    by (simp add: numeral_2_eq_2)
  show "(\<Sum>c<ncols (normalize_rows example_matrix). ([0, 1 / (1 + eps)] ! c)\<^sup>2) = (1 / (1 + eps))\<^sup>2"
    unfolding a by (rule s)
  have "0 \<le> 1 / (1 + eps)" using eps_pos by simp
  then show "sqrt (\<Sum>c<ncols (normalize_rows example_matrix). ([0, 1 / (1 + eps)] ! c)\<^sup>2) = 1 / (1 + eps)"
    unfolding a s by (simp only: real_sqrt_abs abs_of_nonneg)
  show "(\<Sum>c<ncols (normalize_rows example_matrix).
       mrows (normalize_rows example_matrix) ! 1 ! c * [0, 1 / (1 + eps)] ! c) = 0"
    unfolding a b by (simp add: numeral_2_eq_2)
qed

theorem topk_own_row_first_witness:
  "ensure_loaded init_index example_disk = (Inr (), example_loaded)
   \<and> emb example_loaded = Some (normalize_rows example_matrix)
   \<and> wf_matrix (normalize_rows example_matrix)
   \<and> (0::nat) < length (mrows (normalize_rows example_matrix))
   \<and> mrows (normalize_rows example_matrix) ! 0 = [0, 1 / (1 + eps)]
   \<and> 1 - 1 / 10 ^ 5 \<le> sqrt (\<Sum>c<ncols (normalize_rows example_matrix). ([0, 1 / (1 + eps)] ! c)\<^sup>2)
   \<and> sqrt (\<Sum>c<ncols (normalize_rows example_matrix). ([0, 1 / (1 + eps)] ! c)\<^sup>2) \<le> 1 + 1 / 10 ^ 5
   \<and> (\<Sum>c<ncols (normalize_rows example_matrix).
          mrows (normalize_rows example_matrix) ! 1 ! c * [0, 1 / (1 + eps)] ! c)
        \<le> (\<Sum>c<ncols (normalize_rows example_matrix). ([0, 1 / (1 + eps)] ! c)\<^sup>2) - 1 / 10 ^ 3
   \<and> (\<exists>sc rest. topk init_index example_disk [0, 1 / (1 + eps)] 3 = (Inr ((0, sc) # rest), example_loaded)
          \<and> \<bar>sc - 1\<bar> \<le> 1 / 10 ^ 4)"
proof -
  let ?m = "normalize_rows example_matrix"
  let ?v = "[0, 1 / (1 + eps)] :: vec"
  have h2: "emb example_loaded = Some ?m" by (simp add: example_loaded_def)
  have h3: "wf_matrix ?m" by (simp add: example_rows wf_matrix_def)
  have h4: "0 < length (mrows ?m)" by (simp add: example_rows)
  have h5: "?v = mrows ?m ! 0" by (simp add: example_rows)
  have h6: "1 - 1 / 10 ^ 5 \<le> sqrt (\<Sum>c<ncols ?m. (?v ! c)\<^sup>2)"
    unfolding example_first_row(1) by (simp add: eps_def)
  have h7: "sqrt (\<Sum>c<ncols ?m. (?v ! c)\<^sup>2) \<le> 1 + 1 / 10 ^ 5"
    unfolding example_first_row(1) by (simp add: eps_def)
  have o: "(\<Sum>c<ncols ?m. mrows ?m ! 1 ! c * ?v ! c) \<le> (\<Sum>c<ncols ?m. (?v ! c)\<^sup>2) - 1 / 10 ^ 3"
    unfolding example_first_row(2,3) by (simp add: eps_def power2_eq_square)
  have h8: "\<forall>j < length (mrows ?m). j \<noteq> 0 \<longrightarrow>
              (\<Sum>c<ncols ?m. mrows ?m ! j ! c * ?v ! c) \<le> (\<Sum>c<ncols ?m. (?v ! c)\<^sup>2) - 1 / 10 ^ 3"
  proof (intro allI impI)
    fix j assume "j < length (mrows ?m)" and "j \<noteq> 0"
    then have "j = 1" by (simp add: example_rows)
    then show "(\<Sum>c<ncols ?m. mrows ?m ! j ! c * ?v ! c) \<le> (\<Sum>c<ncols ?m. (?v ! c)\<^sup>2) - 1 / 10 ^ 3"
      using o by simp
  qed
  have h9: "(1::int) \<le> 3" by simp
  show ?thesis
    using example_load h2 h3 h4 h5 h6 h7 o
      topk_own_row_first [OF example_load h2 h3 h4 h5 h6 h7 h8 h9]
    by simp
qed

text \<open>
  C9, counterexample. An index whose only row is the zero vector: the load keeps the row zero, and the query
  with that row returns it with score 0, not 1.
\<close>

theorem zero_row_scores_zero:
  "topk init_index zero_disk [0, 0] 1 =
     (Inr [(0, 0)],
      \<lparr>loaded = True, emb = Some \<lparr>ncols = 2, mrows = [[0, 0]]\<rparr>,
         meta = Some [\<lparr>name = Some ''z'', image_rel = None, cluster = None\<rparr>]\<rparr>)"
  by (simp add: topk_def ensure_loaded_def init_index_def zero_disk_def normalize_rows_def
      eps_normalize_def l2norm_def sims_of_def dot_def argsort_def py_take_def)

section \<open>The builder on an example dataset\<close>

lemma example_suffix:
  "suffix ''data/ann/1.jpg'' = ''.jpg''" "suffix ''data/bob/y.PNG'' = ''.PNG''"
  by (simp_all add: suffix_def path_name_def Let_def)

lemma example_lower: "lower ''.jpg'' = ''.jpg''" "lower ''.PNG'' = ''.png''"
  by (simp_all add: lower_def lower_char_def)

lemma example_try_embed:
  "try_embed example_env ''data/ann/1.jpg'' = Some [1, 0]"
  "try_embed example_env ''data/bob/x.png'' = None"
  "try_embed example_env ''data/bob/y.PNG'' = Some [0, 1]"
  "try_embed example_env ''data/bob/gone.jpg'' = None"
  by (simp_all add: try_embed_def example_env_def)

lemma example_sort: "sort_key fst example_groups = [(''ann'', [''data/ann/1.jpg'']),
    (''bob'', [''data/bob/x.png'', ''data/bob/y.PNG'', ''data/bob/gone.jpg''])]"
  by (simp add: example_groups_def)

lemma example_copies:
  "copy_rep example_env ''ann'' ''data/ann/1.jpg'' (None, dir) = (Some ''ann.jpg'', insert ''ann.jpg'' dir)"
  "copy_rep example_env ''bob'' ''data/bob/y.PNG'' (None, dir) = (Some ''bob.png'', insert ''bob.png'' dir)"
  by (auto simp: copy_rep_def example_suffix example_lower replace_spaces_def path_name_def Let_def
      example_env_def)

lemma example_build:
  "compute_actor_vectors example_env {} example_groups 1
     = (Inr example_output, {''ann.jpg'', ''bob.png''})"
  by (simp add: compute_actor_vectors_def example_sort process_entity_def example_try_embed
      example_copies stack_def emit_mean_def emit_def mean_axis0_def eps_normalize_def l2norm_def
      numeral_2_eq_2 example_output_def insert_commute)

lemma example_main:
  "main example_env both_modes {} missing_disk
     = (Inr (), {''ann.jpg'', ''bob.png''},
        \<lparr>emb_file = Content (fst example_output), meta_file = Content (snd example_output)\<rparr>)"
proof -
  have g: "read_groups example_env both_modes = Inr example_groups"
    by (simp add: read_groups_def truthy_def both_modes_def example_env_def)
  have n: "example_groups \<noteq> []" by (simp add: example_groups_def)
  have c: "clusters_per_actor both_modes = 1" by (simp add: both_modes_def)
  show ?thesis
    by (simp add: main_def g n c example_build example_output_def missing_disk_def)
qed

section \<open>Input mode of the builder\<close>

lemma read_groups_usage:
  "read_groups env a = Inl (SystemExit InputModeRequired)
     \<longleftrightarrow> \<not> truthy (dataset_dir a) \<and> \<not> truthy (csv a)"
  by (simp add: read_groups_def split: sum.splits)

lemma main_usage_iff:
  "fst (main env a dir d) = Inl (SystemExit InputModeRequired)
     \<longleftrightarrow> read_groups env a = Inl (SystemExit InputModeRequired)"
  by (cases "read_groups env a")
     (auto simp: main_def split: prod.splits sum.splits)

lemma read_groups_folder_first:
  "truthy (dataset_dir a) \<Longrightarrow> read_groups env (a\<lparr>csv := x\<rparr>) = read_groups env a"
  by (simp add: read_groups_def)

text \<open>
  C8 (as amended). The index builder fails with the usage error exactly when neither
  \<open>--dataset-dir\<close> nor \<open>--csv\<close> is supplied (an empty value counts as not supplied),
  and then changes nothing. When \<open>--dataset-dir\<close> is supplied the run is the
  dataset-directory run whether or not \<open>--csv\<close> is supplied too: the two flags are not
  mutually exclusive, the first one wins.
\<close>

theorem input_mode_required:
  "(fst (main env a dir d) = Inl (SystemExit InputModeRequired)
      \<longleftrightarrow> \<not> truthy (dataset_dir a) \<and> \<not> truthy (csv a))
   \<and> (\<not> truthy (dataset_dir a) \<and> \<not> truthy (csv a)
         \<longrightarrow> main env a dir d = (Inl (SystemExit InputModeRequired), dir, d))
   \<and> (truthy (dataset_dir a) \<longrightarrow> main env a dir d = main env (a\<lparr>csv := None\<rparr>) dir d)"
proof (intro conjI impI)
  show "fst (main env a dir d) = Inl (SystemExit InputModeRequired)
      \<longleftrightarrow> \<not> truthy (dataset_dir a) \<and> \<not> truthy (csv a)"
    by (simp add: main_usage_iff read_groups_usage)
  show "main env a dir d = (Inl (SystemExit InputModeRequired), dir, d)"
    if "\<not> truthy (dataset_dir a) \<and> \<not> truthy (csv a)"
    using that by (simp add: main_def read_groups_def)
  show "main env a dir d = main env (a\<lparr>csv := None\<rparr>) dir d" if "truthy (dataset_dir a)"
    using that
    by (cases "read_groups env a")
       (simp_all add: main_def read_groups_folder_first)
qed

theorem input_mode_required_witness:
  "truthy (dataset_dir both_modes)
   \<and> main example_env both_modes {} missing_disk
       = main example_env (both_modes\<lparr>csv := None\<rparr>) {} missing_disk
   \<and> truthy (dataset_dir no_mode) = False \<and> truthy (csv no_mode) = False
   \<and> main example_env no_mode {} missing_disk = (Inl (SystemExit InputModeRequired), {}, missing_disk)"
proof -
  have a: "truthy (dataset_dir both_modes)" by (simp add: truthy_def both_modes_def)
  have b: "\<not> truthy (dataset_dir no_mode) \<and> \<not> truthy (csv no_mode)"
    by (simp add: truthy_def no_mode_def)
  show ?thesis
    using a b input_mode_required [of example_env both_modes "{}" missing_disk]
      input_mode_required [of example_env no_mode "{}" missing_disk]
    by simp
qed

text \<open>
  C8, counterexample. With both \<open>--dataset-dir\<close> and \<open>--csv\<close> on the command line the builder does not
  fail: it builds the index from the dataset directory and writes both artifacts.
\<close>

theorem both_modes_runs_folder_mode:
  "truthy (dataset_dir both_modes) \<and> truthy (csv both_modes)
   \<and> main example_env both_modes {} missing_disk
       = (Inr (), {''ann.jpg'', ''bob.png''},
          \<lparr>emb_file = Content (fst example_output), meta_file = Content (snd example_output)\<rparr>)"
  by (simp add: example_main) (simp add: truthy_def both_modes_def)

section \<open>Per-entity aggregation\<close>

lemma sample_loop_embs:
  "fst (sample_loop env nm ps (embs, rep)) = embs @ List.map_filter (try_embed env) ps"
proof (induction ps arbitrary: embs rep)
  case Nil
  then show ?case by (simp add: List.map_filter_simps)
next
  case (Cons p ps)
  then show ?case by (cases "try_embed env p") (simp_all add: List.map_filter_simps)
qed

lemma sample_loop_sampled:
  "sample_loop env nm (take 20 ps) ([], None, dir) = (embs, rep, dir') \<Longrightarrow> embs = sampled env ps"
  using sample_loop_embs [of env nm "take 20 ps" "[]" "(None, dir)"] by simp

lemma sampled_Nil: "sampled env [] = []"
  by (simp add: List.map_filter_simps)

lemma stack_uniform:
  "xs \<noteq> [] \<Longrightarrow> \<forall>v \<in> set xs. length v = D \<Longrightarrow> stack xs = Inr \<lparr>ncols = D, mrows = xs\<rparr>"
  by (cases xs) (auto simp: stack_def list_all_iff)

lemma length_mean_axis0: "length (mean_axis0 X) = ncols X"
  by (simp add: mean_axis0_def)

lemma length_eps_normalize: "length (eps_normalize v) = length v"
  by (simp add: eps_normalize_def)

text \<open>With at most one cluster per entity the body of the entity loop takes the single-mean branch.\<close>

lemma process_entity_default:
  assumes "clusters \<le> 1" and "\<forall>v \<in> set (sampled env (snd g)). length v = D"
  shows "\<exists>rep dir'. process_entity env clusters g (out, dir) =
           (Inr (if sampled env (snd g) = [] then out
                 else (fst out @ [eps_normalize (mean_axis0 \<lparr>ncols = D, mrows = sampled env (snd g)\<rparr>)],
                       snd out @ [\<lparr>name = Some (fst g), image_rel = rep, cluster = None\<rparr>])),
            dir')"
proof (cases "snd g = []")
  case True
  then show ?thesis by (simp add: process_entity_def sampled_Nil)
next
  case False
  obtain embs rep dir' where sl:
    "sample_loop env (fst g) (take 20 (snd g)) ([], None, dir) = (embs, rep, dir')"
    by (cases "sample_loop env (fst g) (take 20 (snd g)) ([], None, dir)") auto
  have e: "embs = sampled env (snd g)" using sl by (rule sample_loop_sampled)
  show ?thesis
  proof (cases "embs = []")
    case True
    then show ?thesis using False sl e by (simp add: process_entity_def)
  next
    case ne: False
    have "stack embs = Inr \<lparr>ncols = D, mrows = embs\<rparr>"
      using ne assms(2) e by (intro stack_uniform) auto
    then show ?thesis
      using False sl e ne assms(1) by (simp add: process_entity_def emit_mean_def emit_def)
  qed
qed

lemma entity_loop_default:
  assumes "clusters \<le> 1" and "\<forall>g \<in> set gs. \<forall>v \<in> set (sampled env (snd g)). length v = D"
  shows "\<exists>nm dir'. entity_loop env clusters gs (out, dir) =
           (Inr (fst out @ map (\<lambda>g. eps_normalize (mean_axis0 \<lparr>ncols = D, mrows = sampled env (snd g)\<rparr>))
                            (filter (\<lambda>g. sampled env (snd g) \<noteq> []) gs),
                 snd out @ nm), dir')
           \<and> map name nm = map (\<lambda>g. Some (fst g)) (filter (\<lambda>g. sampled env (snd g) \<noteq> []) gs)
           \<and> list_all (\<lambda>m. cluster m = None) nm"
  using assms(2)
proof (induction gs arbitrary: out dir)
  case Nil
  then show ?case by simp
next
  case (Cons g gs)
  let ?row = "\<lambda>g. eps_normalize (mean_axis0 \<lparr>ncols = D, mrows = sampled env (snd g)\<rparr>)"
  let ?keep = "\<lambda>g. sampled env (snd g) \<noteq> []"
  have u: "\<forall>v \<in> set (sampled env (snd g)). length v = D" using Cons.prems by simp
  obtain rep dir1 where pe: "process_entity env clusters g (out, dir) =
           (Inr (if sampled env (snd g) = [] then out
                 else (fst out @ [?row g], snd out @ [\<lparr>name = Some (fst g), image_rel = rep, cluster = None\<rparr>])),
            dir1)"
    using process_entity_default [OF assms(1) u, of out dir] by blast
  let ?out1 = "if sampled env (snd g) = [] then out
                 else (fst out @ [?row g], snd out @ [\<lparr>name = Some (fst g), image_rel = rep, cluster = None\<rparr>])"
  have r: "\<forall>g \<in> set gs. \<forall>v \<in> set (sampled env (snd g)). length v = D" using Cons.prems by simp
  obtain nm dir' where ih: "entity_loop env clusters gs (?out1, dir1) =
           (Inr (fst ?out1 @ map ?row (filter ?keep gs), snd ?out1 @ nm), dir')"
      "map name nm = map (\<lambda>g. Some (fst g)) (filter ?keep gs)" "list_all (\<lambda>m. cluster m = None) nm"
    using Cons.IH [OF r, of ?out1 dir1] by blast
  have step: "entity_loop env clusters (g # gs) (out, dir) = entity_loop env clusters gs (?out1, dir1)"
    by (simp add: pe)
  show ?case
  proof (cases "sampled env (snd g) = []")
    case True
    then show ?thesis using step ih by auto
  next
    case False
    let ?nm = "\<lparr>name = Some (fst g), image_rel = rep, cluster = None\<rparr> # nm"
    have "entity_loop env clusters (g # gs) (out, dir) =
            (Inr (fst out @ map ?row (filter ?keep (g # gs)), snd out @ ?nm), dir')"
      using step ih(1) False by simp
    moreover have "map name ?nm = map (\<lambda>g. Some (fst g)) (filter ?keep (g # gs))"
      using ih(2) False by simp
    moreover have "list_all (\<lambda>m. cluster m = None) ?nm" using ih(3) by simp
    ultimately show ?thesis by blast
  qed
qed

text \<open>The Euclidean norm, the guarded normalisation and the column mean, component by component.\<close>

lemma eps_normalize_nth:
  "j < length v \<Longrightarrow> eps_normalize v ! j = v ! j / (sqrt (\<Sum>c<length v. (v ! c)\<^sup>2) + 1 / 10 ^ 12)"
  by (simp add: eps_normalize_def l2norm_explicit eps_def)

lemma mean_axis0_nth:
  "j < ncols X \<Longrightarrow> mean_axis0 X ! j = (\<Sum>r\<leftarrow>mrows X. r ! j) / real (length (mrows X))"
  by (simp add: mean_axis0_def)

lemma mean_row_explicit:
  assumes "j < D"
  shows "eps_normalize (mean_axis0 \<lparr>ncols = D, mrows = es\<rparr>) ! j =
           ((\<Sum>e\<leftarrow>es. e ! j) / real (length es))
             / (sqrt (\<Sum>c<D. ((\<Sum>e\<leftarrow>es. e ! c) / real (length es))\<^sup>2) + 1 / 10 ^ 12)"
proof -
  let ?mu = "mean_axis0 \<lparr>ncols = D, mrows = es\<rparr>"
  have l: "length ?mu = D" by (simp add: length_mean_axis0)
  have "eps_normalize ?mu ! j = ?mu ! j / (sqrt (\<Sum>c<D. (?mu ! c)\<^sup>2) + 1 / 10 ^ 12)"
    using assms l eps_normalize_nth [of j ?mu] by simp
  moreover have "(\<Sum>c<D. (?mu ! c)\<^sup>2) = (\<Sum>c<D. ((\<Sum>e\<leftarrow>es. e ! c) / real (length es))\<^sup>2)"
    by (rule sum.cong) (simp_all add: mean_axis0_nth)
  moreover have "?mu ! j = (\<Sum>e\<leftarrow>es. e ! j) / real (length es)"
    using assms by (simp add: mean_axis0_nth)
  ultimately show ?thesis by simp
qed

subsection \<open>Two images averaged\<close>

lemma mean_try_embed:
  "try_embed mean_env ''data/ann/1.jpg'' = Some [3 / 5, 4 / 5]"
  "try_embed mean_env ''data/ann/2.jpg'' = Some [3 / 5, - 4 / 5]"
  "try_embed mean_env ''data/bob/x.png'' = None"
  "try_embed mean_env ''data/bob/y.PNG'' = Some [0, 1]"
  by (simp_all add: try_embed_def mean_env_def)

lemma mean_sort: "sort_key fst mean_groups =
    [(''ann'', [''data/ann/1.jpg'', ''data/ann/2.jpg'']), (''bob'', [''data/bob/x.png'', ''data/bob/y.PNG''])]"
  by (simp add: mean_groups_def)

lemma mean_copies:
  "copy_rep mean_env ''ann'' ''data/ann/1.jpg'' (None, dir) = (Some ''ann.jpg'', insert ''ann.jpg'' dir)"
  "copy_rep mean_env ''bob'' ''data/bob/y.PNG'' (None, dir) = (Some ''bob.png'', insert ''bob.png'' dir)"
  "copy_rep mean_env nm p (Some r, dir) = (Some r, dir)"
  by (auto simp: copy_rep_def example_suffix example_lower replace_spaces_def path_name_def Let_def
      mean_env_def)

lemma sqrt_nine_25: "sqrt (9 / 25) = 3 / 5"
  by (rule real_sqrt_unique) (simp_all add: power2_eq_square)

lemma mean_rows:
  "eps_normalize (mean_axis0 \<lparr>ncols = Suc (Suc 0), mrows = [[3 / 5, 4 / 5], [3 / 5, - (4 / 5)]]\<rparr>)
     = [3 / 5 / (3 / 5 + 1 / 10 ^ 12), 0]"
  "eps_normalize (mean_axis0 \<lparr>ncols = Suc (Suc 0), mrows = [[0, 1]]\<rparr>) = [0, 1 / (1 + 1 / 10 ^ 12)]"
  by (simp_all add: mean_axis0_def eps_normalize_def l2norm_def eps_def sqrt_nine_25)

lemma mean_build:
  "compute_actor_vectors mean_env {} mean_groups 1
     = (Inr (\<lparr>ncols = 2, mrows = [[3 / 5 / (3 / 5 + 1 / 10 ^ 12), 0], [0, 1 / (1 + 1 / 10 ^ 12)]]\<rparr>,
             [\<lparr>name = Some ''ann'', image_rel = Some ''ann.jpg'', cluster = None\<rparr>,
              \<lparr>name = Some ''bob'', image_rel = Some ''bob.png'', cluster = None\<rparr>]),
        {''ann.jpg'', ''bob.png''})"
  by (simp add: compute_actor_vectors_def mean_sort process_entity_def mean_try_embed
      mean_copies stack_def emit_mean_def emit_def mean_rows insert_commute)

text \<open>
  C5. \<open>sampled env paths\<close> are the embeddings of those among the first 20 paths whose
  file reads and embeds without an exception, in enumeration order; a failing image is
  left out and the loop goes on. With the default of one cluster per entity, when the
  embeddings have one dimension \<open>D\<close> and some entity has a sampled embedding, the builder
  returns a matrix with exactly one row for every entity that has a sampled embedding,
  in name-sorted order, and no row for an entity with none; its metadata entry carries the
  entity's name and no cluster. Component \<open>j\<close> of the row is the mean \<open>m j\<close> divided by
  \<open>sqrt (\<Sum>c<D. (m c)\<^sup>2) + 1 / 10 ^ 12\<close>, where \<open>m c\<close> is the sum of the components \<open>c\<close>
  of the entity's sampled embeddings divided by their number: the arithmetic mean,
  renormalised as \<open>v / (\<parallel>v\<parallel> + \<epsilon>)\<close>.
\<close>

theorem builder_default_mean:
  assumes "clusters \<le> 1"
    and "\<forall>g \<in> set grps. \<forall>v \<in> set (sampled env (snd g)). length v = D"
    and "\<exists>g \<in> set grps. sampled env (snd g) \<noteq> []"
  shows "\<exists>M metas dir'.
           compute_actor_vectors env dir grps clusters = (Inr (M, metas), dir')
           \<and> ncols M = D
           \<and> mrows M = map (\<lambda>g. eps_normalize (mean_axis0 \<lparr>ncols = D, mrows = sampled env (snd g)\<rparr>))
                          (filter (\<lambda>g. sampled env (snd g) \<noteq> []) (sort_key fst grps))
           \<and> map name metas = map (\<lambda>g. Some (fst g))
                                 (filter (\<lambda>g. sampled env (snd g) \<noteq> []) (sort_key fst grps))
           \<and> list_all (\<lambda>m. cluster m = None) metas
           \<and> (let kept = filter (\<lambda>g. sampled env (snd g) \<noteq> []) (sort_key fst grps)
               in length (mrows M) = length kept
                  \<and> (\<forall>i < length kept. \<forall>j < D.
                        mrows M ! i ! j =
                          ((\<Sum>e\<leftarrow>sampled env (snd (kept ! i)). e ! j)
                             / real (length (sampled env (snd (kept ! i)))))
                          / (sqrt (\<Sum>c<D. ((\<Sum>e\<leftarrow>sampled env (snd (kept ! i)). e ! c)
                                               / real (length (sampled env (snd (kept ! i)))))\<^sup>2)
                             + 1 / 10 ^ 12)))"
proof -
  let ?gs = "sort_key fst grps"
  let ?row = "\<lambda>g. eps_normalize (mean_axis0 \<lparr>ncols = D, mrows = sampled env (snd g)\<rparr>)"
  let ?keep = "\<lambda>g. sampled env (snd g) \<noteq> []"
  have u: "\<forall>g \<in> set ?gs. \<forall>v \<in> set (sampled env (snd g)). length v = D"
    using assms(2) by simp
  obtain nm dir' where el: "entity_loop env clusters ?gs (([], []), dir) =
           (Inr (map ?row (filter ?keep ?gs), nm), dir')"
      "map name nm = map (\<lambda>g. Some (fst g)) (filter ?keep ?gs)" "list_all (\<lambda>m. cluster m = None) nm"
    using entity_loop_default [OF assms(1) u, of "([], [])" dir] by auto
  have ne: "map ?row (filter ?keep ?gs) \<noteq> []"
    using assms(3) by (auto simp: filter_empty_conv)
  have "\<forall>v \<in> set (map ?row (filter ?keep ?gs)). length v = D"
    by (auto simp: length_eps_normalize length_mean_axis0)
  with ne have st: "stack (map ?row (filter ?keep ?gs)) = Inr \<lparr>ncols = D, mrows = map ?row (filter ?keep ?gs)\<rparr>"
    by (rule stack_uniform)
  let ?M = "\<lparr>ncols = D, mrows = map ?row (filter ?keep ?gs)\<rparr>"
  have c: "compute_actor_vectors env dir grps clusters = (Inr (?M, nm), dir')"
    by (simp add: compute_actor_vectors_def el(1) st)
  have e: "\<forall>i < length (filter ?keep ?gs). \<forall>j < D.
             mrows ?M ! i ! j =
               ((\<Sum>e\<leftarrow>sampled env (snd (filter ?keep ?gs ! i)). e ! j)
                  / real (length (sampled env (snd (filter ?keep ?gs ! i)))))
               / (sqrt (\<Sum>c<D. ((\<Sum>e\<leftarrow>sampled env (snd (filter ?keep ?gs ! i)). e ! c)
                                    / real (length (sampled env (snd (filter ?keep ?gs ! i)))))\<^sup>2)
                  + 1 / 10 ^ 12)"
    by (simp add: mean_row_explicit)
  show ?thesis
    using c el(2,3) e by (intro exI [of _ ?M] exI [of _ nm] exI [of _ dir']) (simp add: Let_def)
qed

theorem builder_default_mean_witness:
  "(1::int) \<le> 1
   \<and> list_all (\<lambda>g. list_all (\<lambda>v. length v = 2) (sampled mean_env (snd g))) mean_groups
   \<and> list_ex (\<lambda>g. sampled mean_env (snd g) \<noteq> []) mean_groups
   \<and> sampled mean_env [''data/ann/1.jpg'', ''data/ann/2.jpg''] = [[3 / 5, 4 / 5], [3 / 5, - (4 / 5)]]
   \<and> sampled mean_env [''data/bob/x.png'', ''data/bob/y.PNG''] = [[0, 1]]
   \<and> (\<exists>M metas dir'.
         compute_actor_vectors mean_env {} mean_groups 1 = (Inr (M, metas), dir')
         \<and> ncols M = 2
         \<and> mrows M = [[3 / 5 / (3 / 5 + 1 / 10 ^ 12), 0], [0, 1 / (1 + 1 / 10 ^ 12)]]
         \<and> map name metas = [Some ''ann'', Some ''bob''])"
proof -
  have h1: "(1::int) \<le> 1" by simp
  have h2: "\<forall>g \<in> set mean_groups. \<forall>v \<in> set (sampled mean_env (snd g)). length v = 2"
    by (simp add: mean_groups_def mean_try_embed)
  have h3: "\<exists>g \<in> set mean_groups. sampled mean_env (snd g) \<noteq> []"
    by (simp add: mean_groups_def mean_try_embed)
  have s: "sampled mean_env [''data/ann/1.jpg'', ''data/ann/2.jpg''] = [[3 / 5, 4 / 5], [3 / 5, - (4 / 5)]]"
      "sampled mean_env [''data/bob/x.png'', ''data/bob/y.PNG''] = [[0, 1]]"
    by (simp_all add: mean_try_embed)
  obtain M metas dir' where r:
      "compute_actor_vectors mean_env {} mean_groups 1 = (Inr (M, metas), dir')" "ncols M = 2"
      "map name metas = map (\<lambda>g. Some (fst g))
         (filter (\<lambda>g. sampled mean_env (snd g) \<noteq> []) (sort_key fst mean_groups))"
    using builder_default_mean [OF h1 h2 h3, of "{}"] by blast
  have n: "map name metas = [Some ''ann'', Some ''bob'']"
    using r(3) by (simp add: mean_sort mean_try_embed)
  have m: "mrows M = [[3 / 5 / (3 / 5 + 1 / 10 ^ 12), 0], [0, 1 / (1 + 1 / 10 ^ 12)]]"
    using r(1) by (simp add: mean_build)  auto
  have c: "\<exists>M metas dir'.
         compute_actor_vectors mean_env {} mean_groups 1 = (Inr (M, metas), dir')
         \<and> ncols M = 2
         \<and> mrows M = [[3 / 5 / (3 / 5 + 1 / 10 ^ 12), 0], [0, 1 / (1 + 1 / 10 ^ 12)]]
         \<and> map name metas = [Some ''ann'', Some ''bob'']"
    using r(1,2) m n by (intro exI [of _ M] exI [of _ metas] exI [of _ dir']) simp
  show ?thesis
    using h2 h3 s c by (simp add: list_all_iff list_ex_iff)
qed

section \<open>The built index\<close>

lemma stack_Inr: "stack xs = Inr X \<Longrightarrow> wf_matrix X \<and> mrows X = xs \<and> xs \<noteq> []"
  by (cases xs) (auto simp: stack_def wf_matrix_def split: if_splits)

lemma members_of_rows: "set (mrows (members_of X labels c)) \<subseteq> set (mrows X)"
  by (auto simp: members_of_def dest: set_zip_leftD)

lemma members_of_wf: "wf_matrix X \<Longrightarrow> wf_matrix (members_of X labels c)"
proof -
  assume "wf_matrix X"
  then have "\<forall>r \<in> set (mrows X). length r = ncols X"
    by (simp add: wf_matrix_def list_all_iff)
  then have "\<forall>r \<in> set (mrows (members_of X labels c)). length r = ncols X"
    using members_of_rows [of X labels c] by blast
  then show ?thesis
    by (simp add: wf_matrix_def list_all_iff members_of_def)
qed

lemma cluster_loop_out:
  assumes "wf_matrix X"
  shows "\<exists>nv ms. cluster_loop nm rep X labels cs out = (fst out @ nv, snd out @ ms)
           \<and> list_all2 (\<lambda>v m. name m = Some nm
                 \<and> (\<exists>Y. wf_matrix Y \<and> mrows Y \<noteq> [] \<and> set (mrows Y) \<subseteq> set (mrows X)
                        \<and> v = eps_normalize (mean_axis0 Y))) nv ms"
proof (induction cs arbitrary: out)
  case Nil
  show ?case by (intro exI [of _ "[]"]) simp
next
  case (Cons c cs)
  let ?P = "\<lambda>v m. name m = Some nm
                 \<and> (\<exists>Y. wf_matrix Y \<and> mrows Y \<noteq> [] \<and> set (mrows Y) \<subseteq> set (mrows X)
                        \<and> v = eps_normalize (mean_axis0 Y))"
  let ?Y = "members_of X labels c"
  show ?case
  proof (cases "length (mrows ?Y) * ncols ?Y = 0")
    case True
    then have "cluster_loop nm rep X labels (c # cs) out = cluster_loop nm rep X labels cs out"
      by (simp add: Let_def)
    then show ?thesis using Cons.IH [of out] by simp
  next
    case False
    let ?v = "eps_normalize (mean_axis0 ?Y)"
    let ?m = "\<lparr>name = Some nm, image_rel = rep, cluster = Some c\<rparr>"
    let ?out1 = "emit ?v ?m out"
    have s: "cluster_loop nm rep X labels (c # cs) out = cluster_loop nm rep X labels cs ?out1"
      using False by (simp add: Let_def)
    obtain nv ms where ih: "cluster_loop nm rep X labels cs ?out1 = (fst ?out1 @ nv, snd ?out1 @ ms)"
      "list_all2 ?P nv ms"
      using Cons.IH [of ?out1] by blast
    have p: "?P ?v ?m"
      using False members_of_wf [OF assms, of labels c] members_of_rows [of X labels c]
      by (intro conjI exI [of _ ?Y]) auto
    have "cluster_loop nm rep X labels (c # cs) out = (fst out @ (?v # nv), snd out @ (?m # ms))"
      using s ih(1) by (simp add: emit_def)
    moreover have "list_all2 ?P (?v # nv) (?m # ms)" using p ih(2) by simp
    ultimately show ?thesis by blast
  qed
qed

lemma emit_mean_out:
  assumes "wf_matrix X" and "mrows X \<noteq> []"
  shows "\<exists>nv ms. emit_mean nm rep X out = (fst out @ nv, snd out @ ms)
           \<and> list_all2 (\<lambda>v m. name m = Some nm
                 \<and> (\<exists>Y. wf_matrix Y \<and> mrows Y \<noteq> [] \<and> set (mrows Y) \<subseteq> set (mrows X)
                        \<and> v = eps_normalize (mean_axis0 Y))) nv ms"
proof -
  let ?v = "eps_normalize (mean_axis0 X)"
  let ?m = "\<lparr>name = Some nm, image_rel = rep, cluster = None\<rparr>"
  have "emit_mean nm rep X out = (fst out @ [?v], snd out @ [?m])"
    by (simp add: emit_mean_def emit_def)
  moreover have "list_all2 (\<lambda>v m. name m = Some nm
                 \<and> (\<exists>Y. wf_matrix Y \<and> mrows Y \<noteq> [] \<and> set (mrows Y) \<subseteq> set (mrows X)
                        \<and> v = eps_normalize (mean_axis0 Y))) [?v] [?m]"
    using assms by auto
  ultimately show ?thesis by blast
qed

text \<open>Whatever branch the body of the entity loop takes, it appends rows and entries in pairs.\<close>

lemma process_entity_out:
  assumes "process_entity env clusters g (out, dir) = (Inr out', dir')"
  shows "\<exists>nv ms. out' = (fst out @ nv, snd out @ ms) \<and> list_all2 (describes env g) nv ms"
proof (cases "snd g = []")
  case True
  then have "out' = (fst out @ [], snd out @ [])" using assms by (simp add: process_entity_def)
  then show ?thesis by (intro exI [of _ "[]"]) simp
next
  case False
  obtain embs rep dir1 where sl:
    "sample_loop env (fst g) (take 20 (snd g)) ([], None, dir) = (embs, rep, dir1)"
    by (cases "sample_loop env (fst g) (take 20 (snd g)) ([], None, dir)") auto
  have e: "embs = sampled env (snd g)" using sl by (rule sample_loop_sampled)
  show ?thesis
  proof (cases "embs = []")
    case True
    then have "out' = (fst out @ [], snd out @ [])"
      using assms False sl by (simp add: process_entity_def)
    then show ?thesis by (intro exI [of _ "[]"]) simp
  next
    case ne: False
    obtain X where st: "stack embs = Inr X"
      using assms False sl ne by (cases "stack embs") (simp_all add: process_entity_def)
    have X: "wf_matrix X" "mrows X = embs" using stack_Inr [OF st] by simp_all
    let ?P = "\<lambda>v m. name m = Some (fst g)
                 \<and> (\<exists>Y. wf_matrix Y \<and> mrows Y \<noteq> [] \<and> set (mrows Y) \<subseteq> set (mrows X)
                        \<and> v = eps_normalize (mean_axis0 Y))"
    have br: "out' = emit_mean (fst g) rep X out
          \<or> (\<exists>labels. out' = cluster_loop (fst g) rep X labels [0..<nat clusters] out)"
      using assms False sl ne st
      by (auto simp: process_entity_def split: if_splits option.splits)
    have "\<exists>nv ms. out' = (fst out @ nv, snd out @ ms) \<and> list_all2 ?P nv ms"
    proof (cases "out' = emit_mean (fst g) rep X out")
      case True
      have "mrows X \<noteq> []" using ne X(2) by simp
      then show ?thesis
        using emit_mean_out [OF X(1), of "fst g" rep out] True by simp
    next
      case False
      then obtain labels where "out' = cluster_loop (fst g) rep X labels [0..<nat clusters] out"
        using br by blast
      then show ?thesis
        using cluster_loop_out [OF X(1), of "fst g" rep labels "[0..<nat clusters]" out] by simp
    qed
    then obtain nv ms where o: "out' = (fst out @ nv, snd out @ ms)" "list_all2 ?P nv ms"
      by blast
    have "list_all2 (describes env g) nv ms"
      using o(2) X(2) e by (simp add: list_all2_conv_all_nth)
    with o(1) show ?thesis by blast
  qed
qed

lemma entity_loop_out:
  assumes "entity_loop env clusters gs (out, dir) = (Inr out', dir')"
  shows "\<exists>nv ms. out' = (fst out @ nv, snd out @ ms)
           \<and> list_all2 (\<lambda>v m. \<exists>g \<in> set gs. describes env g v m) nv ms
           \<and> (sorted (map fst gs) \<longrightarrow> sorted (map (the \<circ> name) ms))"
  using assms
proof (induction gs arbitrary: out dir)
  case Nil
  then have "out' = (fst out @ [], snd out @ [])" by simp
  then show ?case by (intro exI [of _ "[]"]) simp
next
  case (Cons g gs)
  obtain r dir1 where pe: "process_entity env clusters g (out, dir) = (r, dir1)"
    by (cases "process_entity env clusters g (out, dir)") auto
  obtain out1 where r: "r = Inr out1"
    using Cons.prems pe by (cases r) simp_all
  have rest: "entity_loop env clusters gs (out1, dir1) = (Inr out', dir')"
    using Cons.prems pe r by simp
  obtain nv1 ms1 where a: "out1 = (fst out @ nv1, snd out @ ms1)" "list_all2 (describes env g) nv1 ms1"
    using process_entity_out [of env clusters g out dir out1 dir1] pe r by blast
  obtain nv2 ms2 where b: "out' = (fst out1 @ nv2, snd out1 @ ms2)"
      "list_all2 (\<lambda>v m. \<exists>g \<in> set gs. describes env g v m) nv2 ms2"
      "sorted (map fst gs) \<longrightarrow> sorted (map (the \<circ> name) ms2)"
    using Cons.IH [OF rest] by blast
  have o: "out' = (fst out @ (nv1 @ nv2), snd out @ (ms1 @ ms2))"
    using a(1) b(1) by simp
  have n1: "\<forall>m \<in> set ms1. (the \<circ> name) m = fst g"
    using a(2) by (auto simp: list_all2_conv_all_nth in_set_conv_nth)
  have n2: "\<forall>m \<in> set ms2. (the \<circ> name) m \<in> fst ` set gs"
    using b(2) by (auto simp: list_all2_conv_all_nth in_set_conv_nth) force
  have d: "list_all2 (\<lambda>v m. \<exists>h \<in> set (g # gs). describes env h v m) (nv1 @ nv2) (ms1 @ ms2)"
  proof (rule list_all2_appendI)
    show "list_all2 (\<lambda>v m. \<exists>h \<in> set (g # gs). describes env h v m) nv1 ms1"
      using a(2) by (rule list_all2_mono) auto
    show "list_all2 (\<lambda>v m. \<exists>h \<in> set (g # gs). describes env h v m) nv2 ms2"
      using b(2) by (rule list_all2_mono) auto
  qed
  have s: "sorted (map fst (g # gs)) \<longrightarrow> sorted (map (the \<circ> name) (ms1 @ ms2))"
  proof
    assume so: "sorted (map fst (g # gs))"
    then have le: "\<forall>x \<in> fst ` set gs. fst g \<le> x" by auto
    have s1: "sorted (map (the \<circ> name) ms1)"
      using n1 by (induction ms1) auto
    have s2: "sorted (map (the \<circ> name) ms2)" using so b(3) by simp
    have "\<forall>m \<in> set ms2. fst g \<le> (the \<circ> name) m"
      using n2 le by blast
    then show "sorted (map (the \<circ> name) (ms1 @ ms2))"
      using s1 s2 n1 by (simp add: sorted_append)
  qed
  from o d s show ?case by blast
qed

lemma sum_squares_scale:
  "sum_list (map (\<lambda>x. x * x) (map (\<lambda>x. x / c) v)) = sum_list (map (\<lambda>x. x * x) v) / (c * c :: real)"
  by (induction v) (simp_all add: add_divide_distrib)

lemma l2norm_eps_normalize: "l2norm (eps_normalize v) = l2norm v / (l2norm v + eps)"
proof -
  let ?c = "l2norm v + eps"
  have pos: "0 < ?c" using l2norm_nonneg [of v] eps_pos by linarith
  have "l2norm (eps_normalize v) = sqrt (sum_list (map (\<lambda>x. x * x) v) / (?c * ?c))"
    unfolding eps_normalize_def l2norm_def [of "map (\<lambda>x. x / ?c) v"]
    by (simp only: sum_squares_scale)
  also have "\<dots> = sqrt (sum_list (map (\<lambda>x. x * x) v)) / sqrt (?c * ?c)"
    by (rule real_sqrt_divide)
  also have "\<dots> = l2norm v / ?c"
    using pos by (simp add: l2norm_def)
  finally show ?thesis .
qed

lemma guarded_ratio_less_one: "0 \<le> t \<Longrightarrow> t / (t + eps) < 1"
proof -
  assume "0 \<le> t"
  then have "0 < t + eps" using eps_pos by linarith
  moreover have "t < t + eps" using eps_pos by simp
  ultimately show ?thesis by (simp add: pos_divide_less_eq)
qed

text \<open>
  A persisted row of norm at least \<open>1 / 10 ^ 6\<close> has, after the loader's normalisation, a
  norm within \<open>1 / 10 ^ 5\<close> of 1.
\<close>

lemma loaded_norm_tolerance:
  assumes "1 / 10 ^ 6 \<le> l2norm r"
  shows "\<bar>l2norm (eps_normalize r) - 1\<bar> \<le> 1 / 10 ^ 5"
proof -
  define t where "t = l2norm r"
  have t: "1 / 10 ^ 6 \<le> t" using assms by (simp add: t_def)
  have tp: "0 < t + eps" using t eps_pos by (simp add: add_pos_pos)
  have n: "l2norm (eps_normalize r) = t / (t + eps)"
    by (simp add: l2norm_eps_normalize t_def)
  have up: "t / (t + eps) < 1"
    using t by (intro guarded_ratio_less_one) simp
  have "(1 - 1 / 10 ^ 5) * (t + eps) \<le> t"
    using t by (simp add: eps_def algebra_simps)
  then have lo: "1 - 1 / 10 ^ 5 \<le> t / (t + eps)"
    using tp by (simp add: pos_le_divide_eq)
  show ?thesis unfolding n using up lo by (simp add: abs_le_iff)
qed

text \<open>A mean of norm 0 stays at norm 0 through the builder's and the loader's normalisation.\<close>

lemma zero_mean_loaded:
  "l2norm u = 0 \<Longrightarrow> l2norm (eps_normalize (eps_normalize u)) = 0"
  by (simp add: l2norm_eps_normalize)

lemma normalize_rows_nth:
  "i < length (mrows M) \<Longrightarrow> mrows (normalize_rows M) ! i = eps_normalize (mrows M ! i)"
  by (simp add: normalize_rows_def)

lemma load_built_index:
  "length ms = length (mrows M) \<Longrightarrow>
     ensure_loaded init_index \<lparr>emb_file = Content M, meta_file = Content ms\<rparr>
       = (Inr (), \<lparr>loaded = True, emb = Some (normalize_rows M), meta = Some ms\<rparr>)"
  by (simp add: ensure_loaded_def init_index_def Let_def normalize_rows_def)

lemma example_output_rows:
  "mrows (fst example_output) = [[1 / (1 + eps), 0], [0, 1 / (1 + eps)]]"
  "length (snd example_output) = 2"
  by (simp_all add: example_output_def)

lemma example_output_norm:
  "1 / 10 ^ 6 \<le> sqrt (\<Sum>c<ncols (fst example_output). (mrows (fst example_output) ! 0 ! c)\<^sup>2)"
proof -
  have a: "mrows (fst example_output) ! 0 = [1 / (1 + eps), 0]"
      "ncols (fst example_output) = length [1 / (1 + eps), 0 :: real]"
    by (simp_all add: example_output_def)
  have "sqrt (\<Sum>c<ncols (fst example_output). (mrows (fst example_output) ! 0 ! c)\<^sup>2)
          = l2norm [1 / (1 + eps), 0]"
    by (simp only: a l2norm_explicit)
  also have "\<dots> = 1 / (1 + eps)" using eps_pos by (simp add: l2norm_pair)
  finally show ?thesis by (simp add: eps_def)
qed

text \<open>
  C6 (as amended). Whenever the builder returns a matrix and a metadata list, in any
  clustering mode: the row count equals the metadata length, all rows have the matrix's
  dimension, the entries' names are in sorted order, and the serving process loads the
  two artifacts without error. Entry \<open>i\<close> describes row \<open>i\<close>: it names an entity of the
  dataset, and the row is the renormalised mean of a non-empty selection of that entity's
  sampled embeddings. After the load step, every row whose persisted norm
  \<open>sqrt (\<Sum>c. (row c)\<^sup>2)\<close> is at least \<open>1 / 10 ^ 6\<close> has a norm within \<open>1 / 10 ^ 5\<close> of 1;
  a row built from a mean of norm 0 has norm 0 after the load step.
\<close>

theorem builder_index_invariant:
  assumes "compute_actor_vectors env dir grps clusters = (Inr (M, metas), dir')"
  shows "length (mrows M) = length metas
         \<and> wf_matrix M
         \<and> sorted (map (the \<circ> name) metas)
         \<and> (\<exists>s'. ensure_loaded init_index \<lparr>emb_file = Content M, meta_file = Content metas\<rparr> = (Inr (), s')
                  \<and> emb s' = Some (normalize_rows M) \<and> meta s' = Some metas)
         \<and> (\<forall>i < length metas. \<exists>g \<in> set grps. \<exists>X.
               wf_matrix X \<and> mrows X \<noteq> [] \<and> set (mrows X) \<subseteq> set (sampled env (snd g))
               \<and> name (metas ! i) = Some (fst g)
               \<and> mrows M ! i = eps_normalize (mean_axis0 X)
               \<and> mrows (normalize_rows M) ! i = eps_normalize (eps_normalize (mean_axis0 X))
               \<and> (1 / 10 ^ 6 \<le> sqrt (\<Sum>c<ncols M. (mrows M ! i ! c)\<^sup>2)
                    \<longrightarrow> \<bar>sqrt (\<Sum>c<ncols M. (mrows (normalize_rows M) ! i ! c)\<^sup>2) - 1\<bar> \<le> 1 / 10 ^ 5)
               \<and> (l2norm (mean_axis0 X) = 0 \<longrightarrow> l2norm (mrows (normalize_rows M) ! i) = 0))"
proof -
  let ?gs = "sort_key fst grps"
  obtain r dir1 where el: "entity_loop env clusters ?gs (([], []), dir) = (r, dir1)"
    by (cases "entity_loop env clusters ?gs (([], []), dir)") auto
  obtain out where r: "r = Inr out"
    using assms el by (cases r) (simp_all add: compute_actor_vectors_def)
  have st: "stack (fst out) = Inr M" and ms: "snd out = metas"
    using assms el r by (cases "stack (fst out)"; simp add: compute_actor_vectors_def)+
  obtain nv ms' where o: "out = (nv, ms')"
      "list_all2 (\<lambda>v m. \<exists>g \<in> set ?gs. describes env g v m) nv ms'"
      "sorted (map fst ?gs) \<longrightarrow> sorted (map (the \<circ> name) ms')"
    using entity_loop_out [of env clusters ?gs "([], [])" dir out dir1] el r by auto
  have M: "wf_matrix M" "mrows M = nv" using stack_Inr [OF st] o(1) by simp_all
  have me: "metas = ms'" using ms o(1) by simp
  have len: "length (mrows M) = length metas"
    using o(2) M(2) me by (simp add: list_all2_lengthD)
  have so: "sorted (map (the \<circ> name) metas)" using o(3) me by simp
  have ld: "\<exists>s'. ensure_loaded init_index \<lparr>emb_file = Content M, meta_file = Content metas\<rparr> = (Inr (), s')
                  \<and> emb s' = Some (normalize_rows M) \<and> meta s' = Some metas"
    using load_built_index [of metas M] len by simp
  have rows: "\<forall>i < length metas. \<exists>g \<in> set grps. \<exists>X.
               wf_matrix X \<and> mrows X \<noteq> [] \<and> set (mrows X) \<subseteq> set (sampled env (snd g))
               \<and> name (metas ! i) = Some (fst g)
               \<and> mrows M ! i = eps_normalize (mean_axis0 X)
               \<and> mrows (normalize_rows M) ! i = eps_normalize (eps_normalize (mean_axis0 X))
               \<and> (1 / 10 ^ 6 \<le> sqrt (\<Sum>c<ncols M. (mrows M ! i ! c)\<^sup>2)
                    \<longrightarrow> \<bar>sqrt (\<Sum>c<ncols M. (mrows (normalize_rows M) ! i ! c)\<^sup>2) - 1\<bar> \<le> 1 / 10 ^ 5)
               \<and> (l2norm (mean_axis0 X) = 0 \<longrightarrow> l2norm (mrows (normalize_rows M) ! i) = 0)"
  proof (intro allI impI)
    fix i assume i: "i < length metas"
    then have "\<exists>g \<in> set ?gs. describes env g (nv ! i) (ms' ! i)"
      using o(2) me by (simp add: list_all2_conv_all_nth)
    then obtain g X where g: "g \<in> set grps" "name (metas ! i) = Some (fst g)"
        "wf_matrix X" "mrows X \<noteq> []" "set (mrows X) \<subseteq> set (sampled env (snd g))"
        "mrows M ! i = eps_normalize (mean_axis0 X)"
      using me M(2) by auto
    have n: "mrows (normalize_rows M) ! i = eps_normalize (eps_normalize (mean_axis0 X))"
      using i len g(6) by (simp add: normalize_rows_nth)
    have li: "length (mrows M ! i) = ncols M"
      using M(1) i len by (simp add: wf_matrix_def list_all_length)
    have t: "1 / 10 ^ 6 \<le> sqrt (\<Sum>c<ncols M. (mrows M ! i ! c)\<^sup>2)
                    \<longrightarrow> \<bar>sqrt (\<Sum>c<ncols M. (mrows (normalize_rows M) ! i ! c)\<^sup>2) - 1\<bar> \<le> 1 / 10 ^ 5"
      using loaded_norm_tolerance [of "mrows M ! i"] i len li
        l2norm_explicit [of "mrows M ! i"] l2norm_explicit [of "eps_normalize (mrows M ! i)"]
      by (simp add: normalize_rows_nth length_eps_normalize)
    show "\<exists>g \<in> set grps. \<exists>X.
               wf_matrix X \<and> mrows X \<noteq> [] \<and> set (mrows X) \<subseteq> set (sampled env (snd g))
               \<and> name (metas ! i) = Some (fst g)
               \<and> mrows M ! i = eps_normalize (mean_axis0 X)
               \<and> mrows (normalize_rows M) ! i = eps_normalize (eps_normalize (mean_axis0 X))
               \<and> (1 / 10 ^ 6 \<le> sqrt (\<Sum>c<ncols M. (mrows M ! i ! c)\<^sup>2)
                    \<longrightarrow> \<bar>sqrt (\<Sum>c<ncols M. (mrows (normalize_rows M) ! i ! c)\<^sup>2) - 1\<bar> \<le> 1 / 10 ^ 5)
               \<and> (l2norm (mean_axis0 X) = 0 \<longrightarrow> l2norm (mrows (normalize_rows M) ! i) = 0)"
      using g n t zero_mean_loaded [of "mean_axis0 X"]
      by (intro bexI [of _ g] exI [of _ X]) simp_all
  qed
  from len M(1) so ld rows show ?thesis by blast
qed

theorem builder_index_invariant_witness:
  "compute_actor_vectors example_env {} example_groups 1
     = (Inr (fst example_output, snd example_output), {''ann.jpg'', ''bob.png''})
   \<and> length (mrows (fst example_output)) = length (snd example_output)
   \<and> wf_matrix (fst example_output)
   \<and> sorted (map (the \<circ> name) (snd example_output))
   \<and> (\<exists>s'. ensure_loaded init_index
               \<lparr>emb_file = Content (fst example_output), meta_file = Content (snd example_output)\<rparr>
               = (Inr (), s')
             \<and> emb s' = Some (normalize_rows (fst example_output))
             \<and> meta s' = Some (snd example_output))
   \<and> 1 / 10 ^ 6 \<le> sqrt (\<Sum>c<ncols (fst example_output). (mrows (fst example_output) ! 0 ! c)\<^sup>2)
   \<and> \<bar>sqrt (\<Sum>c<ncols (fst example_output).
               (mrows (normalize_rows (fst example_output)) ! 0 ! c)\<^sup>2) - 1\<bar> \<le> 1 / 10 ^ 5"
proof -
  have h: "compute_actor_vectors example_env {} example_groups 1
     = (Inr (fst example_output, snd example_output), {''ann.jpg'', ''bob.png''})"
    by (simp add: example_build)
  note inv = builder_index_invariant [OF h]
  have "0 < length (snd example_output)" by (simp add: example_output_rows)
  then have "1 / 10 ^ 6 \<le> sqrt (\<Sum>c<ncols (fst example_output). (mrows (fst example_output) ! 0 ! c)\<^sup>2)
      \<longrightarrow> \<bar>sqrt (\<Sum>c<ncols (fst example_output).
               (mrows (normalize_rows (fst example_output)) ! 0 ! c)\<^sup>2) - 1\<bar> \<le> 1 / 10 ^ 5"
    using inv by blast
  then have "\<bar>sqrt (\<Sum>c<ncols (fst example_output).
               (mrows (normalize_rows (fst example_output)) ! 0 ! c)\<^sup>2) - 1\<bar> \<le> 1 / 10 ^ 5"
    using example_output_norm by blast
  then show ?thesis using h inv example_output_norm by blast
qed

lemma opposite_try_embed:
  "try_embed opposite_env ''data/zed/1.jpg'' = Some [1, 0]"
  "try_embed opposite_env ''data/zed/2.jpg'' = Some [- 1, 0]"
  by (simp_all add: try_embed_def opposite_env_def)

lemma opposite_copy:
  "copy_rep opposite_env ''zed'' ''data/zed/1.jpg'' (None, {}) = (Some ''zed.jpg'', {''zed.jpg''})"
  "copy_rep opposite_env ''zed'' p (Some ''zed.jpg'', dir) = (Some ''zed.jpg'', dir)"
  by (simp_all add: copy_rep_def suffix_def path_name_def lower_def lower_char_def
      replace_spaces_def Let_def opposite_env_def)

text \<open>
  C6, counterexample. An entity with two images whose unit embeddings are opposite: their mean is the zero
  vector, the persisted row is zero, and after the load step the row has norm 0, not 1.
\<close>

theorem zero_mean_row_not_unit:
  "l2norm [1, 0] = 1 \<and> l2norm [- 1, 0] = 1
   \<and> compute_actor_vectors opposite_env {} opposite_groups 1
       = (Inr (\<lparr>ncols = 2, mrows = [[0, 0]]\<rparr>,
               [\<lparr>name = Some ''zed'', image_rel = Some ''zed.jpg'', cluster = None\<rparr>]),
          {''zed.jpg''})
   \<and> mrows (normalize_rows \<lparr>ncols = 2, mrows = [[0, 0]]\<rparr>) = [[0, 0]]
   \<and> l2norm [0, 0] = 0"
proof -
  have a: "l2norm [1, 0] = 1 \<and> l2norm [- 1, 0] = 1 \<and> l2norm [0, 0] = 0"
    by (simp add: l2norm_def)
  have b: "compute_actor_vectors opposite_env {} opposite_groups 1
       = (Inr (\<lparr>ncols = 2, mrows = [[0, 0]]\<rparr>,
               [\<lparr>name = Some ''zed'', image_rel = Some ''zed.jpg'', cluster = None\<rparr>]),
          {''zed.jpg''})"
    by (simp add: compute_actor_vectors_def opposite_groups_def process_entity_def opposite_try_embed
        opposite_copy stack_def emit_mean_def emit_def mean_axis0_def eps_normalize_def l2norm_def
        numeral_2_eq_2)
  have c: "mrows (normalize_rows \<lparr>ncols = 2, mrows = [[0, 0]]\<rparr>) = [[0, 0]]"
    by (simp add: normalize_rows_def eps_normalize_def)
  from a b c show ?thesis by simp
qed

section \<open>The builder with two clusters on an example\<close>

text \<open>
  One entity with two embedded images and a clustering that puts each image in a cluster
  of its own: the builder emits one row per cluster, both under the entity's name.
\<close>

lemma cluster_try_embed:
  "try_embed cluster_env ''data/ann/1.jpg'' = Some [1, 0]"
  "try_embed cluster_env ''data/bob/y.PNG'' = Some [0, 1]"
  by (simp_all add: try_embed_def cluster_env_def example_env_def)

lemma cluster_copy:
  "copy_rep cluster_env ''bob'' ''data/bob/y.PNG'' (None, {}) = (Some ''bob.png'', {''bob.png''})"
  "copy_rep cluster_env ''bob'' p (Some ''bob.png'', dir) = (Some ''bob.png'', dir)"
  by (simp_all add: copy_rep_def example_suffix example_lower replace_spaces_def path_name_def Let_def
      cluster_env_def example_env_def)

lemma single_row_mean:
  "mean_axis0 \<lparr>ncols = Suc (Suc 0), mrows = [[a, b]]\<rparr> = [a, b]"
  by (simp add: mean_axis0_def)

lemma unit_vector_normalized:
  "eps_normalize [1, 0] = [1 / (1 + eps), 0]" "eps_normalize [0, 1] = [0, 1 / (1 + eps)]"
  by (simp_all add: eps_normalize_def l2norm_def)

lemma example_clusters:
  "compute_actor_vectors cluster_env {} cluster_groups 2
     = (Inr (\<lparr>ncols = 2, mrows = [[1 / (1 + eps), 0], [0, 1 / (1 + eps)]]\<rparr>,
             [\<lparr>name = Some ''bob'', image_rel = Some ''bob.png'', cluster = Some 0\<rparr>,
              \<lparr>name = Some ''bob'', image_rel = Some ''bob.png'', cluster = Some 1\<rparr>]),
        {''bob.png''})"
proof -
  have k: "kmeans cluster_env 2 [[0, 1], [1, 0]] = Some [1, 0]"
    by (simp add: cluster_env_def)
  have r: "[0..<2] = [0, 1]" by (simp add: upt_rec)
  show ?thesis
    by (simp add: compute_actor_vectors_def cluster_groups_def process_entity_def cluster_try_embed
        cluster_copy stack_def k r members_of_def emit_def single_row_mean unit_vector_normalized
        Let_def)
qed

end
